theory Spec2Isabelle
  imports Main "HOL-Library.Word" "HOL-Library.AList"
begin

section \<open>Bytes and buffers\<close>

text \<open>
  A Node \<open>Buffer\<close> is a list of bytes. The numeric header fields of the TypeScript
  source are \<open>number\<close> or \<open>bigint\<close>; they are embedded as \<open>int\<close>, and the range
  checks that \<open>Buffer.writeUInt32LE\<close> and its siblings perform are written out.
\<close>

unbundle bit_operations_syntax

type_synonym byte = "8 word"
type_synonym buffer = "byte list"

text \<open>
  What the source throws: \<open>new Error(message)\<close> with the fixed part of its message, and
  the \<open>RangeError\<close> of a Buffer access outside the buffer or of a value outside the
  field's range.
\<close>

datatype error = Error string | RangeError

text \<open>Sequencing of two steps, the first of which may throw.\<close>

definition and_then :: "error + 'a \<Rightarrow> ('a \<Rightarrow> error + 'b) \<Rightarrow> error + 'b" where
  "and_then r k = (case r of Inl e \<Rightarrow> Inl e | Inr x \<Rightarrow> k x)"

text \<open>\<open>Buffer.alloc(n)\<close>: \<open>n\<close> zero bytes.\<close>

definition alloc :: "nat \<Rightarrow> buffer" where
  "alloc n = replicate n 0"

text \<open>
  The \<open>n\<close> low bytes of an integer, least significant first (two's complement for a
  negative one), and the unsigned value of a little-endian byte string.
\<close>

fun le_bytes :: "nat \<Rightarrow> int \<Rightarrow> buffer" where
  "le_bytes 0 v = []"
| "le_bytes (Suc n) v = word_of_int v # le_bytes n (v div 256)"

fun le_value :: "buffer \<Rightarrow> int" where
  "le_value [] = 0"
| "le_value (b # bs) = uint b + 256 * le_value bs"

text \<open>\<open>source.copy(target, off)\<close> for a source that fits: the bytes are overwritten in place.\<close>

definition copy_into :: "buffer \<Rightarrow> nat \<Rightarrow> buffer \<Rightarrow> buffer" where
  "copy_into src off target = take off target @ src @ drop (off + length src) target"

text \<open>
  The Buffer writers check the value against the field's range and the offset against the
  buffer, and throw otherwise; the readers check the offset.
\<close>

definition write_le :: "nat \<Rightarrow> int \<Rightarrow> int \<Rightarrow> int \<Rightarrow> nat \<Rightarrow> buffer \<Rightarrow> error + buffer" where
  "write_le n lo hi v off buf =
     (if v < lo \<or> hi < v then Inl RangeError
      else if length buf < off + n then Inl RangeError
      else Inr (copy_into (le_bytes n v) off buf))"

definition read_le :: "nat \<Rightarrow> nat \<Rightarrow> buffer \<Rightarrow> error + int" where
  "read_le n off buf =
     (if length buf < off + n then Inl RangeError
      else Inr (le_value (take n (drop off buf))))"

definition writeUInt16LE :: "int \<Rightarrow> nat \<Rightarrow> buffer \<Rightarrow> error + buffer" where
  "writeUInt16LE = write_le 2 0 (2 ^ 16 - 1)"

definition writeUInt32LE :: "int \<Rightarrow> nat \<Rightarrow> buffer \<Rightarrow> error + buffer" where
  "writeUInt32LE = write_le 4 0 (2 ^ 32 - 1)"

definition writeInt32LE :: "int \<Rightarrow> nat \<Rightarrow> buffer \<Rightarrow> error + buffer" where
  "writeInt32LE = write_le 4 (- (2 ^ 31)) (2 ^ 31 - 1)"

definition writeBigUInt64LE :: "int \<Rightarrow> nat \<Rightarrow> buffer \<Rightarrow> error + buffer" where
  "writeBigUInt64LE = write_le 8 0 (2 ^ 64 - 1)"

definition readUInt16LE :: "nat \<Rightarrow> buffer \<Rightarrow> error + int" where
  "readUInt16LE = read_le 2"

definition readUInt32LE :: "nat \<Rightarrow> buffer \<Rightarrow> error + int" where
  "readUInt32LE = read_le 4"

definition readInt32LE :: "nat \<Rightarrow> buffer \<Rightarrow> error + int" where
  "readInt32LE off buf =
     and_then (read_le 4 off buf) (\<lambda>u. Inr (if u < 2 ^ 31 then u else u - 2 ^ 32))"

definition readBigUInt64LE :: "nat \<Rightarrow> buffer \<Rightarrow> error + int" where
  "readBigUInt64LE = read_le 8"

section \<open>Channel: selector conversion (dvt/channel.ts)\<close>

text \<open>\<open>String.prototype.replace(/_/g, ':')\<close>: every underscore becomes a colon.\<close>

definition replace_underscores :: "string \<Rightarrow> string" where
  "replace_underscores s = map (\<lambda>c. if c = CHR ''_'' then CHR '':'' else c) s"

text \<open>
  \<open>name.startsWith('_')\<close> and \<open>name.substring(1)\<close> are the two cases of the pattern
  match on the first character.
\<close>

fun convertToSelector :: "string \<Rightarrow> string" where
  "convertToSelector [] = replace_underscores []"
| "convertToSelector (c # cs) =
     (if c = CHR ''_'' then CHR ''_'' # replace_underscores cs
      else replace_underscores (c # cs))"

section \<open>DTX message header (dvt/dtx-message.ts)\<close>

record DTXMessageHeader =
  magic :: int
  cb :: int
  fragmentId :: int
  fragmentCount :: int
  length_field :: int
  identifier_field :: int
  conversationIndex :: int
  channelCode :: int
  expectsReply :: int

record DTXMessagePayloadHeader =
  flags :: int
  auxiliaryLength :: int
  totalLength :: int

definition MESSAGE_HEADER_MAGIC :: int where "MESSAGE_HEADER_MAGIC = 0x1f3d5b79"
definition MESSAGE_HEADER_SIZE :: nat where "MESSAGE_HEADER_SIZE = 32"
definition PAYLOAD_HEADER_SIZE :: nat where "PAYLOAD_HEADER_SIZE = 16"
definition MESSAGE_AUX_MAGIC :: int where "MESSAGE_AUX_MAGIC = 0x1f0"
definition EMPTY_DICTIONARY :: int where "EMPTY_DICTIONARY = 0xa"
definition INSTRUMENTS_MESSAGE_TYPE :: int where "INSTRUMENTS_MESSAGE_TYPE = 2"
definition EXPECTS_REPLY_MASK :: int where "EXPECTS_REPLY_MASK = 0x1000"
definition AUX_TYPE_OBJECT :: int where "AUX_TYPE_OBJECT = 2"
definition AUX_TYPE_INT32 :: int where "AUX_TYPE_INT32 = 3"
definition AUX_TYPE_INT64 :: int where "AUX_TYPE_INT64 = 6"

definition parseMessageHeader :: "buffer \<Rightarrow> error + DTXMessageHeader" where
  "parseMessageHeader buffer =
     (if length buffer < MESSAGE_HEADER_SIZE
      then Inl (Error ''Buffer too small for DTX message header'')
      else
        and_then (readUInt32LE 0 buffer) (\<lambda>f0.
        and_then (readUInt32LE 4 buffer) (\<lambda>f1.
        and_then (readUInt16LE 8 buffer) (\<lambda>f2.
        and_then (readUInt16LE 10 buffer) (\<lambda>f3.
        and_then (readUInt32LE 12 buffer) (\<lambda>f4.
        and_then (readUInt32LE 16 buffer) (\<lambda>f5.
        and_then (readUInt32LE 20 buffer) (\<lambda>f6.
        and_then (readInt32LE 24 buffer) (\<lambda>f7.
        and_then (readUInt32LE 28 buffer) (\<lambda>f8.
        Inr \<lparr>magic = f0, cb = f1, fragmentId = f2, fragmentCount = f3,
             length_field = f4, identifier_field = f5, conversationIndex = f6,
             channelCode = f7, expectsReply = f8\<rparr>))))))))))"

definition buildMessageHeader :: "DTXMessageHeader \<Rightarrow> error + buffer" where
  "buildMessageHeader header =
     and_then (writeUInt32LE (magic header) 0 (alloc MESSAGE_HEADER_SIZE)) (\<lambda>b.
     and_then (writeUInt32LE (cb header) 4 b) (\<lambda>b.
     and_then (writeUInt16LE (fragmentId header) 8 b) (\<lambda>b.
     and_then (writeUInt16LE (fragmentCount header) 10 b) (\<lambda>b.
     and_then (writeUInt32LE (length_field header) 12 b) (\<lambda>b.
     and_then (writeUInt32LE (identifier_field header) 16 b) (\<lambda>b.
     and_then (writeUInt32LE (conversationIndex header) 20 b) (\<lambda>b.
     and_then (writeInt32LE (channelCode header) 24 b) (\<lambda>b.
     writeUInt32LE (expectsReply header) 28 b))))))))"

definition parsePayloadHeader :: "buffer \<Rightarrow> error + DTXMessagePayloadHeader" where
  "parsePayloadHeader buffer =
     (if length buffer < PAYLOAD_HEADER_SIZE
      then Inl (Error ''Buffer too small for DTX payload header'')
      else
        and_then (readUInt32LE 0 buffer) (\<lambda>f0.
        and_then (readUInt32LE 4 buffer) (\<lambda>f1.
        and_then (readBigUInt64LE 8 buffer) (\<lambda>f2.
        Inr \<lparr>flags = f0, auxiliaryLength = f1, totalLength = f2\<rparr>))))"

definition buildPayloadHeader :: "DTXMessagePayloadHeader \<Rightarrow> error + buffer" where
  "buildPayloadHeader header =
     and_then (writeUInt32LE (flags header) 0 (alloc PAYLOAD_HEADER_SIZE)) (\<lambda>b.
     and_then (writeUInt32LE (auxiliaryLength header) 4 b) (\<lambda>b.
     writeBigUInt64LE (totalLength header) 8 b))"

text \<open>
  The headers whose fields fit their wire widths: \<open>fragmentId\<close> and \<open>fragmentCount\<close> in
  16 bits, \<open>channelCode\<close> a signed 32-bit value, the other fields unsigned 32-bit; for the
  payload header \<open>totalLength\<close> is an unsigned 64-bit value.
\<close>

definition u16 :: "int \<Rightarrow> bool" where "u16 v = (0 \<le> v \<and> v < 2 ^ 16)"
definition u32 :: "int \<Rightarrow> bool" where "u32 v = (0 \<le> v \<and> v < 2 ^ 32)"
definition i32 :: "int \<Rightarrow> bool" where "i32 v = (- (2 ^ 31) \<le> v \<and> v < 2 ^ 31)"
definition u64 :: "int \<Rightarrow> bool" where "u64 v = (0 \<le> v \<and> v < 2 ^ 64)"

definition fits_message_header :: "DTXMessageHeader \<Rightarrow> bool" where
  "fits_message_header h =
     (u32 (magic h) \<and> u32 (cb h) \<and> u16 (fragmentId h) \<and> u16 (fragmentCount h) \<and>
      u32 (length_field h) \<and> u32 (identifier_field h) \<and> u32 (conversationIndex h) \<and>
      i32 (channelCode h) \<and> u32 (expectsReply h))"

definition fits_payload_header :: "DTXMessagePayloadHeader \<Rightarrow> bool" where
  "fits_payload_header p = (u32 (flags p) \<and> u32 (auxiliaryLength p) \<and> u64 (totalLength p))"

text \<open>A header used in examples: fragment \<open>i\<close> of \<open>n\<close> on channel \<open>code\<close>.\<close>

definition ex_header :: "int \<Rightarrow> int \<Rightarrow> int \<Rightarrow> DTXMessageHeader" where
  "ex_header i n code = \<lparr>magic = 0x1F3D5B79, cb = 32, fragmentId = i, fragmentCount = n,
     length_field = 0, identifier_field = 1, conversationIndex = 0, channelCode = code,
     expectsReply = 0\<rparr>"

section \<open>Fragment reassembly (dvt/channel-fragmenter.ts)\<close>

record ChannelFragmenter =
  messages :: "buffer list"
  packetData :: buffer
  streamPacketData :: buffer

text \<open>The state of \<open>new ChannelFragmenter()\<close>.\<close>

definition new_ChannelFragmenter :: ChannelFragmenter where
  "new_ChannelFragmenter = \<lparr>messages = [], packetData = [], streamPacketData = []\<rparr>"

text \<open>
  \<open>get()\<close> is \<open>this.messages.shift() || null\<close>: a Buffer is an object and hence truthy even
  when empty, so the head of the queue is returned whenever there is one.
\<close>

fun get :: "ChannelFragmenter \<Rightarrow> buffer option \<times> ChannelFragmenter" where
  "get f =
     (case messages f of
        [] \<Rightarrow> (None, f)
      | m # ms \<Rightarrow> (Some m, f\<lparr>messages := ms\<rparr>))"

definition addFragment ::
  "DTXMessageHeader \<Rightarrow> buffer \<Rightarrow> ChannelFragmenter \<Rightarrow> ChannelFragmenter" where
  "addFragment header chunk f =
     (if channelCode header \<ge> 0 then
        (let f1 = f\<lparr>packetData := packetData f @ chunk\<rparr> in
         if fragmentId header = fragmentCount header - 1
         then f1\<lparr>messages := messages f1 @ [packetData f1], packetData := []\<rparr>
         else f1)
      else
        (let f1 = f\<lparr>streamPacketData := streamPacketData f @ chunk\<rparr> in
         if fragmentId header = fragmentCount header - 1
         then f1\<lparr>messages := messages f1 @ [streamPacketData f1], streamPacketData := []\<rparr>
         else f1))"

text \<open>Feeding a sequence of fragments, each a header with its payload chunk, in order.\<close>

fun addFragments ::
  "(DTXMessageHeader \<times> buffer) list \<Rightarrow> ChannelFragmenter \<Rightarrow> ChannelFragmenter" where
  "addFragments [] f = f"
| "addFragments ((h, c) # rest) f = addFragments rest (addFragment h c f)"

text \<open>
  The accumulation buffer that \<open>addFragment\<close> selects for a channel code of the given
  sign.
\<close>

definition accumulator :: "bool \<Rightarrow> ChannelFragmenter \<Rightarrow> buffer" where
  "accumulator regular f = (if regular then packetData f else streamPacketData f)"

text \<open>
  An in-order sequence of the fragments \<open>0 .. n - 1\<close> of one message: fragment \<open>i\<close>
  carries index \<open>i\<close> and count \<open>n\<close>, and every channel code has the same sign.
\<close>

definition in_order_fragments ::
  "bool \<Rightarrow> (DTXMessageHeader \<times> buffer) list \<Rightarrow> bool" where
  "in_order_fragments regular frags =
     (frags \<noteq> [] \<and>
      list_all (\<lambda>(i, h). fragmentId h = int i \<and> fragmentCount h = int (length frags)
                  \<and> (channelCode h \<ge> 0) = regular)
        (enumerate 0 (map fst frags)))"

section \<open>File-conduit codec (afc/constants.ts, afc/codec.ts)\<close>

text \<open>
  A JavaScript string as the bytes of its UTF-8 encoding: \<open>Buffer.from(str)\<close>. The
  characters of a HOL \<open>string\<close> are these bytes.
\<close>

definition bytes_of :: "string \<Rightarrow> buffer" where
  "bytes_of str = map (\<lambda>c. of_nat (of_char c)) str"

definition AFCMAGIC :: buffer where
  "AFCMAGIC = bytes_of ''CFA6LPAA''"

definition AFC_HEADER_SIZE :: nat where "AFC_HEADER_SIZE = 40"
definition AFC_WRITE_THIS_LENGTH :: int where "AFC_WRITE_THIS_LENGTH = 48"
definition NULL_BYTE :: buffer where "NULL_BYTE = [0]"

record AfcHeader =
  afc_magic :: buffer
  entireLength :: int
  thisLength :: int
  packetNum :: int
  operation :: int

definition writeUInt64LE :: "int \<Rightarrow> error + buffer" where
  "writeUInt64LE v = writeBigUInt64LE v 0 (alloc 8)"

definition readUInt64LE :: "buffer \<Rightarrow> nat \<Rightarrow> error + int" where
  "readUInt64LE buf off = readBigUInt64LE off buf"

definition cstr :: "string \<Rightarrow> buffer" where
  "cstr str = bytes_of str @ NULL_BYTE"

text \<open>
  \<open>encodeHeader(op, packetNum, payloadLen, thisLenOverride?)\<close>. The opcode is the number
  of the \<open>AfcOpcode\<close> member; an absent override is \<open>None\<close>, and \<open>??\<close> then takes the
  default.
\<close>

definition encodeHeader :: "int \<Rightarrow> int \<Rightarrow> nat \<Rightarrow> int option \<Rightarrow> error + buffer" where
  "encodeHeader op pn payloadLen thisLenOverride =
     (let entireLen = int (AFC_HEADER_SIZE + payloadLen);
          thisLen = (case thisLenOverride of
                       None \<Rightarrow> int (AFC_HEADER_SIZE + payloadLen)
                     | Some t \<Rightarrow> t);
          header = copy_into AFCMAGIC 0 (alloc AFC_HEADER_SIZE)
      in and_then (writeUInt64LE entireLen) (\<lambda>b1.
         and_then (writeUInt64LE thisLen) (\<lambda>b2.
         and_then (writeUInt64LE pn) (\<lambda>b3.
         and_then (writeUInt64LE op) (\<lambda>b4.
         Inr (copy_into b4 32 (copy_into b3 24 (copy_into b2 16 (copy_into b1 8 header)))))))))"

text \<open>
  The bytes that \<open>sendAfcPacket\<close> writes to the socket: the header, then the payload when
  it is not empty.
\<close>

definition sendAfcPacket :: "int \<Rightarrow> int \<Rightarrow> buffer \<Rightarrow> int option \<Rightarrow> error + buffer" where
  "sendAfcPacket op pn payload thisLenOverride =
     and_then (encodeHeader op pn (length payload) thisLenOverride) (\<lambda>header.
       Inr (header @ payload))"

text \<open>
  \<open>readExact(socket, n)\<close> of the file-conduit codec. The socket is stood for by the bytes
  that reach it and by what ends a read that waits for more: the timer of the read, the
  close of the socket, or an error of the socket. With at least \<open>n\<close> bytes the read
  resolves to the first \<open>n\<close> and the rest stays buffered. With fewer the promise is
  rejected: by the timer with the time-out error, and then the buffer is kept; by
  \<open>cleanupSocketState\<close> with \<open>Socket closed\<close> or with the socket's own error, and then
  the buffered bytes are dropped with the state of the socket, which emits nothing more.
  Every caller leaves the time-out at its default of 30000 ms, which the message of the
  time-out error quotes. \<open>hex\<close> is \<open>buf.toString('hex')\<close>, which the error for a wrong
  magic quotes.
\<close>

datatype socket_end = TimesOut | SocketCloses | SocketFails error

record afc_socket =
  arriving :: buffer
  ending :: socket_end

definition rejection :: "socket_end \<Rightarrow> error" where
  "rejection e =
     (case e of
        TimesOut \<Rightarrow> Error ''readExact timeout after 30000ms''
      | SocketCloses \<Rightarrow> Error ''Socket closed''
      | SocketFails err \<Rightarrow> err)"

definition readExact :: "nat \<Rightarrow> afc_socket \<Rightarrow> (error + buffer) \<times> afc_socket" where
  "readExact n sock =
     (if n \<le> length (arriving sock)
      then (Inr (take n (arriving sock)), sock\<lparr>arriving := drop n (arriving sock)\<rparr>)
      else (Inl (rejection (ending sock)),
            case ending sock of
              TimesOut \<Rightarrow> sock
            | _ \<Rightarrow> \<lparr>arriving = [], ending = TimesOut\<rparr>))"

definition hex_digit :: "nat \<Rightarrow> char" where
  "hex_digit d = ''0123456789abcdef'' ! d"

definition hex :: "buffer \<Rightarrow> string" where
  "hex buf = concat (map (\<lambda>b. [hex_digit (unat b div 16), hex_digit (unat b mod 16)]) buf)"

definition readAfcHeader :: "afc_socket \<Rightarrow> (error + AfcHeader) \<times> afc_socket" where
  "readAfcHeader sock =
     (case readExact AFC_HEADER_SIZE sock of
        (Inl e, rest) \<Rightarrow> (Inl e, rest)
      | (Inr buf, rest) \<Rightarrow>
          (let m = take 8 buf in
           if m \<noteq> AFCMAGIC then (Inl (Error (''Invalid AFC magic: '' @ hex m)), rest)
           else
             (and_then (readUInt64LE buf 8) (\<lambda>entire.
              and_then (readUInt64LE buf 16) (\<lambda>this.
              and_then (readUInt64LE buf 24) (\<lambda>pn.
              and_then (readUInt64LE buf 32) (\<lambda>op.
              Inr \<lparr>afc_magic = m, entireLength = entire, thisLength = this,
                   packetNum = pn, operation = op\<rparr>)))), rest)))"

text \<open>
  The packet that \<open>_doOperation(op, payload)\<close> dispatches, and the read stream with its
  \<open>READ\<close> requests: every caller in the service passes two arguments, so the override is
  absent. The packet that one round of the loop of
  \<open>fwrite\<close> (and of the write stream) dispatches for a chunk: a \<open>WRITE\<close> whose payload is
  the handle followed by the chunk, with the write override. \<open>write_op\<close> is the number of
  \<open>AfcOpcode.WRITE\<close>, which afc/enums.ts declares.
\<close>

definition doOperation_packet :: "int \<Rightarrow> int \<Rightarrow> buffer \<Rightarrow> error + buffer" where
  "doOperation_packet op pn payload = sendAfcPacket op pn payload None"

definition fwrite_packet :: "int \<Rightarrow> int \<Rightarrow> int \<Rightarrow> buffer \<Rightarrow> error + buffer" where
  "fwrite_packet write_op pn handle chunk =
     and_then (writeUInt64LE handle) (\<lambda>h.
       sendAfcPacket write_op pn (h @ chunk) (Some AFC_WRITE_THIS_LENGTH))"

section \<open>Archive decoder (dvt/nskeyedarchiver-decoder.ts)\<close>

text \<open>
  The values of a parsed property list, as JavaScript sees them: \<open>null\<close>, \<open>undefined\<close>
  (which only decoding produces), booleans, numbers (the integers), strings, Buffers,
  arrays and plain objects. An object is the list of its own enumerable properties in
  enumeration order, with distinct keys.
\<close>

datatype plist =
    PNull
  | PUndefined
  | PBool bool
  | PNum int
  | PStr string
  | PBuffer buffer
  | PArr "plist list"
  | PObj "(string \<times> plist) list"

definition MAX_DECODE_DEPTH :: nat where "MAX_DECODE_DEPTH = 1000"

text \<open>
  The mutable state of one decoder: the \<open>visited\<close> set that \<open>decode\<close> creates and every
  nested call shares, and the memo table \<open>this.decoded\<close>.
\<close>

record decoder =
  visited :: "int set"
  decoded :: "int \<rightharpoonup> plist"

text \<open>\<open>key in obj\<close> and \<open>obj[key]\<close> on a plain object.\<close>

definition has_key :: "string \<Rightarrow> (string \<times> plist) list \<Rightarrow> bool" where
  "has_key k fs = (map_of fs k \<noteq> None)"

definition get_prop :: "(string \<times> plist) list \<Rightarrow> string \<Rightarrow> plist" where
  "get_prop fs k = (case map_of fs k of None \<Rightarrow> PUndefined | Some v \<Rightarrow> v)"

text \<open>
  \<open>Object.entries\<close> of an array: its elements under their indices written in decimal.
\<close>

fun digit_string :: "nat \<Rightarrow> string" where
  "digit_string n = (if n < 10 then [char_of (48 + n)]
     else digit_string (n div 10) @ [char_of (48 + n mod 10)])"

definition array_entries :: "plist list \<Rightarrow> (string \<times> plist) list" where
  "array_entries xs = map (\<lambda>(i, x). (digit_string i, x)) (enumerate 0 xs)"

text \<open>\<open>typeof v === 'object'\<close> for a \<open>v\<close> that is not \<open>null\<close>.\<close>

definition is_object :: "plist \<Rightarrow> bool" where
  "is_object v = (case v of PObj _ \<Rightarrow> True | PArr _ \<Rightarrow> True | PBuffer _ \<Rightarrow> True | _ \<Rightarrow> False)"

text \<open>\<open>visited.delete(index)\<close> and \<open>this.decoded.set(index, value)\<close>.\<close>

definition unvisit :: "int \<Rightarrow> decoder \<Rightarrow> decoder" where
  "unvisit i st = st\<lparr>visited := visited st - {i}\<rparr>"

definition remember :: "int \<Rightarrow> plist \<Rightarrow> decoder \<Rightarrow> decoder" where
  "remember i v st = st\<lparr>decoded := (decoded st)(i \<mapsto> v)\<rparr>"

text \<open>
  \<open>decodeObject\<close>, \<open>decodeArray\<close> and \<open>decodeDictionary\<close>, with the loops they run:
  \<open>decodeArray_map\<close> is the callback of \<open>refs.map\<close> applied along the array,
  \<open>decodeDictionary_loop\<close> the \<open>for\<close> loop over the two reference arrays, and
  \<open>decodeObject_fields\<close> the loop over \<open>Object.entries(obj)\<close> of a regular object, each
  with the result built so far. An array in the object table is an object without the
  three marker properties and so goes through the regular-object loop.

  The index parameter is declared a number, but the callers pass whatever the archive
  holds. A number takes the path the source spells out. An index that is an object or
  \<open>undefined\<close> compares false with both bounds, is in neither \<open>visited\<close> nor \<open>decoded\<close>,
  and names no property of the table, so \<open>undefined\<close> is returned; \<open>null\<close> and booleans
  compare as 0 and 1 first. A string, array or Buffer index would be coerced to a property
  key by JavaScript; this embedding does not follow that coercion and gives the result for
  a key that names no property of the table.
\<close>

function decodeObject :: "plist list \<Rightarrow> plist \<Rightarrow> nat \<Rightarrow> decoder \<Rightarrow> plist \<times> decoder"
  and decodeArray :: "plist list \<Rightarrow> plist \<Rightarrow> nat \<Rightarrow> decoder \<Rightarrow> plist \<times> decoder"
  and decodeArray_map :: "plist list \<Rightarrow> plist list \<Rightarrow> nat \<Rightarrow> decoder \<Rightarrow> plist list \<times> decoder"
  and decodeDictionary :: "plist list \<Rightarrow> plist \<Rightarrow> plist \<Rightarrow> nat \<Rightarrow> decoder \<Rightarrow> plist \<times> decoder"
  and decodeDictionary_loop ::
    "plist list \<Rightarrow> plist list \<Rightarrow> plist list \<Rightarrow> nat \<Rightarrow> (string \<times> plist) list \<Rightarrow> decoder
      \<Rightarrow> plist \<times> decoder"
  and decodeObject_fields ::
    "plist list \<Rightarrow> (string \<times> plist) list \<Rightarrow> nat \<Rightarrow> (string \<times> plist) list \<Rightarrow> decoder
      \<Rightarrow> plist \<times> decoder"
where
  "decodeObject objs index depth st =
     (if depth > MAX_DECODE_DEPTH then (PNull, st)
      else case index of
        PNum i \<Rightarrow>
          (if i < 0 \<or> i \<ge> int (length objs) then (PNull, st)
           else if i \<in> visited st then (PNull, st)
           else case decoded st i of
             Some v \<Rightarrow> (v, st)
           | None \<Rightarrow>
               (let st1 = st\<lparr>visited := insert i (visited st)\<rparr>;
                    obj = objs ! nat i
                in if obj = PStr ''$null'' \<or> obj = PNull then (PNull, unvisit i st1)
                   else if \<not> is_object obj then (obj, unvisit i st1)
                   else case obj of
                     PBuffer b \<Rightarrow> (obj, unvisit i (remember i obj st1))
                   | PArr xs \<Rightarrow>
                       (case decodeObject_fields objs (array_entries xs) depth [] st1 of
                          (result, st2) \<Rightarrow> (result, unvisit i (remember i result st2)))
                   | PObj fs \<Rightarrow>
                       (if has_key ''CF$UID'' fs then
                          (case decodeObject objs (get_prop fs ''CF$UID'') (depth + 1) st1 of
                             (result, st2) \<Rightarrow> (result, unvisit i st2))
                        else if has_key ''NS.keys'' fs \<and> has_key ''NS.objects'' fs then
                          (case decodeDictionary objs (get_prop fs ''NS.keys'') (get_prop fs ''NS.objects'')
                                  depth st1 of
                             (result, st2) \<Rightarrow> (result, unvisit i (remember i result st2)))
                        else if has_key ''NS.objects'' fs then
                          (case decodeArray objs (get_prop fs ''NS.objects'') depth st1 of
                             (result, st2) \<Rightarrow> (result, unvisit i (remember i result st2)))
                        else
                          (case decodeObject_fields objs fs depth [] st1 of
                             (result, st2) \<Rightarrow> (result, unvisit i (remember i result st2))))
                   | _ \<Rightarrow> (obj, unvisit i st1)))
      | PNull \<Rightarrow> (if length objs = 0 then (PNull, st) else (PUndefined, st))
      | PBool b \<Rightarrow> (if (if b then 1 else 0) \<ge> length objs then (PNull, st) else (PUndefined, st))
      | _ \<Rightarrow> (PUndefined, st))"
| "decodeArray objs refs depth st =
     (case refs of
        PArr rs \<Rightarrow> (case decodeArray_map objs rs depth st of (vs, st1) \<Rightarrow> (PArr vs, st1))
      | _ \<Rightarrow> (PArr [], st))"
| "decodeArray_map objs [] depth st = ([], st)"
| "decodeArray_map objs (ref # rest) depth st =
     (case (case ref of
              PNum n \<Rightarrow> decodeObject objs ref (depth + 1) st
            | PObj fs \<Rightarrow>
                (if has_key ''CF$UID'' fs
                 then decodeObject objs (get_prop fs ''CF$UID'') (depth + 1) st
                 else (ref, st))
            | _ \<Rightarrow> (ref, st)) of
        (v, st1) \<Rightarrow> (case decodeArray_map objs rest depth st1 of (vs, st2) \<Rightarrow> (v # vs, st2)))"
| "decodeDictionary objs keyRefs valueRefs depth st =
     (case keyRefs of
        PArr ks \<Rightarrow>
          (case valueRefs of
             PArr vs \<Rightarrow> decodeDictionary_loop objs ks vs depth [] st
           | _ \<Rightarrow> (PObj [], st))
      | _ \<Rightarrow> (PObj [], st))"
| "decodeDictionary_loop objs (k # ks) (v # vs) depth result st =
     (case decodeObject objs k (depth + 1) st of
        (key, st1) \<Rightarrow>
          (case decodeObject objs v (depth + 1) st1 of
             (val, st2) \<Rightarrow>
               decodeDictionary_loop objs ks vs depth
                 (case key of PStr s \<Rightarrow> AList.update s val result | _ \<Rightarrow> result) st2))"
| "decodeDictionary_loop objs [] vs depth result st = (PObj result, st)"
| "decodeDictionary_loop objs (k # ks) [] depth result st = (PObj result, st)"
| "decodeObject_fields objs [] depth result st = (PObj result, st)"
| "decodeObject_fields objs ((key, val) # rest) depth result st =
     (if key = ''$class'' then decodeObject_fields objs rest depth result st
      else
        (case (case val of
                 PNum n \<Rightarrow>
                   (if n < int (length objs) \<and> n \<ge> 0 then
                      (if is_object (objs ! nat n) \<and> n \<notin> visited st
                       then decodeObject objs val (depth + 1) st
                       else (val, st))
                    else (val, st))
               | PObj fs \<Rightarrow>
                   (if has_key ''CF$UID'' fs then
                      (case get_prop fs ''CF$UID'' of
                         PNum uid \<Rightarrow>
                           (if uid \<notin> visited st
                            then decodeObject objs (PNum uid) (depth + 1) st
                            else (val, st))
                       | _ \<Rightarrow> (val, st))
                    else (val, st))
               | _ \<Rightarrow> (val, st)) of
           (v, st1) \<Rightarrow> decodeObject_fields objs rest depth (AList.update key v result) st1))"
  by pat_completeness auto

text \<open>
  Every nested call of \<open>decodeObject\<close> is one level deeper, and no call goes deeper than
  the ceiling: the remaining depth decreases, and inside one level the list still to be
  walked.
\<close>

fun decode_rank ::
  "((plist list \<times> plist \<times> nat \<times> decoder) +
    (plist list \<times> plist \<times> nat \<times> decoder) +
    (plist list \<times> plist list \<times> nat \<times> decoder)) +
   ((plist list \<times> plist \<times> plist \<times> nat \<times> decoder) +
    (plist list \<times> plist list \<times> plist list \<times> nat \<times> (string \<times> plist) list \<times> decoder) +
    (plist list \<times> (string \<times> plist) list \<times> nat \<times> (string \<times> plist) list \<times> decoder))
   \<Rightarrow> nat \<times> nat" where
  "decode_rank (Inl (Inl (objs, index, depth, st))) = (Suc MAX_DECODE_DEPTH - depth, 0)"
| "decode_rank (Inl (Inr (Inl (objs, refs, depth, st)))) =
     (MAX_DECODE_DEPTH - depth, 2 + (case refs of PArr rs \<Rightarrow> length rs | _ \<Rightarrow> 0))"
| "decode_rank (Inl (Inr (Inr (objs, rs, depth, st)))) = (MAX_DECODE_DEPTH - depth, 1 + length rs)"
| "decode_rank (Inr (Inl (objs, keyRefs, valueRefs, depth, st))) =
     (MAX_DECODE_DEPTH - depth, 2 + (case keyRefs of PArr ks \<Rightarrow> length ks | _ \<Rightarrow> 0))"
| "decode_rank (Inr (Inr (Inl (objs, ks, vs, depth, result, st)))) =
     (MAX_DECODE_DEPTH - depth, 1 + length ks)"
| "decode_rank (Inr (Inr (Inr (objs, fs, depth, result, st)))) =
     (MAX_DECODE_DEPTH - depth, 1 + length fs)"

termination decodeObject
  by (relation "inv_image (less_than <*lex*> less_than) decode_rank")
    (auto simp: Suc_diff_le)

declare decodeObject.simps [simp del]


text \<open>Truthiness of a value, as \<open>if (v)\<close> and \<open>v && ...\<close> test it.\<close>

definition truthy :: "plist \<Rightarrow> bool" where
  "truthy v = (case v of
       PNull \<Rightarrow> False | PUndefined \<Rightarrow> False | PBool b \<Rightarrow> b | PNum n \<Rightarrow> n \<noteq> 0
     | PStr s \<Rightarrow> s \<noteq> [] | _ \<Rightarrow> True)"

definition isNSKeyedArchive :: "plist \<Rightarrow> bool" where
  "isNSKeyedArchive data =
     (case data of
        PObj fs \<Rightarrow>
          has_key ''$archiver'' fs \<and> get_prop fs ''$archiver'' = PStr ''NSKeyedArchiver'' \<and>
          has_key ''$objects'' fs \<and>
          (case get_prop fs ''$objects'' of PArr xs \<Rightarrow> True | _ \<Rightarrow> False)
      | _ \<Rightarrow> False)"

text \<open>
  The constructor throws on data that is not an archive; otherwise it keeps the archive
  and its \<open>$objects\<close> array and starts with an empty memo table. \<open>decode\<close> starts the
  \<open>decodeObject\<close> of the root with a fresh \<open>visited\<close> set and depth 0.
\<close>

definition archive_objects :: "plist \<Rightarrow> plist list" where
  "archive_objects data =
     (case data of
        PObj fs \<Rightarrow> (case get_prop fs ''$objects'' of PArr xs \<Rightarrow> xs | _ \<Rightarrow> [])
      | _ \<Rightarrow> [])"

definition new_decoder :: decoder where
  "new_decoder = \<lparr>visited = {}, decoded = Map.empty\<rparr>"

text \<open>The root reference that \<open>decode\<close> extracts from \<open>$top\<close>; \<open>PNull\<close> when it finds none.\<close>

definition rootIndex :: "plist \<Rightarrow> plist" where
  "rootIndex data =
     (case data of
        PObj fs \<Rightarrow>
          (case get_prop fs ''$top'' of
             PObj tp \<Rightarrow>
               (if has_key ''root'' tp then
                  (case get_prop tp ''root'' of
                     PNum n \<Rightarrow> PNum n
                   | PObj r \<Rightarrow> (if has_key ''CF$UID'' r then get_prop r ''CF$UID'' else PNull)
                   | _ \<Rightarrow> PNull)
                else PNull)
           | _ \<Rightarrow> PNull)
      | _ \<Rightarrow> PNull)"

definition NSKeyedArchiverDecoder :: "plist \<Rightarrow> error + plist" where
  "NSKeyedArchiverDecoder data =
     (if \<not> isNSKeyedArchive data then Inl (Error ''Data is not in NSKeyedArchiver format'')
      else Inr data)"

definition decode :: "plist \<Rightarrow> plist" where
  "decode data =
     (let objs = archive_objects data in
      if objs = [] then PNull
      else if rootIndex data \<noteq> PNull
        then fst (decodeObject objs (rootIndex data) 0 new_decoder)
        else fst (decodeObject objs (PNum 1) 0 new_decoder))"

text \<open>
  \<open>decodeNSKeyedArchiver\<close>: data that is not an archive is returned as it is, and so is
  the data when the constructor throws; \<open>decode\<close> itself has no branch that throws.
\<close>

definition decodeNSKeyedArchiver :: "plist \<Rightarrow> plist" where
  "decodeNSKeyedArchiver data =
     (if \<not> truthy data then data
      else if \<not> isNSKeyedArchive data then data
      else case NSKeyedArchiverDecoder data of
             Inl e \<Rightarrow> data
           | Inr decoder_data \<Rightarrow> decode decoder_data)"



definition uid :: "int \<Rightarrow> plist" where
  "uid n = PObj [(''CF$UID'', PNum n)]"

section \<open>Auxiliary data and message receipt (dvt/index.ts)\<close>

text \<open>
  The binary property-list codec (lib/plist) is a library of its own; the service
  is modelled for any codec, given by its two functions, either of which may throw.
\<close>

record plist_codec =
  parseBinaryPlist :: "buffer \<Rightarrow> error + plist"
  createBinaryPlist :: "plist \<Rightarrow> error + buffer"

text \<open>\<open>buf.subarray(start, end)\<close>, which clamps both ends to the buffer.\<close>

definition subarray :: "buffer \<Rightarrow> nat \<Rightarrow> nat \<Rightarrow> buffer" where
  "subarray buf start end = take (end - start) (drop start buf)"

text \<open>
  \<open>parseAuxiliaryValue\<close>: a 32-bit or 64-bit integer, or a length-prefixed property list,
  which is kept as the raw bytes when it does not parse; any other type code throws. The
  decoded values are \<open>any[]\<close> in the source and \<open>plist\<close> values here.
\<close>

definition parseAuxiliaryValue ::
  "plist_codec \<Rightarrow> buffer \<Rightarrow> int \<Rightarrow> nat \<Rightarrow> error + (plist \<times> nat)" where
  "parseAuxiliaryValue L buffer type offset =
     (if type = AUX_TYPE_INT32 then
        and_then (readUInt32LE offset buffer) (\<lambda>v. Inr (PNum v, offset + 4))
      else if type = AUX_TYPE_INT64 then
        and_then (readBigUInt64LE offset buffer) (\<lambda>v. Inr (PNum v, offset + 8))
      else if type = AUX_TYPE_OBJECT then
        and_then (readUInt32LE offset buffer) (\<lambda>len.
          (let plistData = subarray buffer (offset + 4) (offset + 4 + nat len);
               parsed = (case parseBinaryPlist L plistData of
                           Inl e \<Rightarrow> PBuffer plistData
                         | Inr v \<Rightarrow> v)
           in Inr (parsed, offset + 4 + nat len)))
      else Inl (Error ''Unknown auxiliary type''))"

lemma parseAuxiliaryValue_advances:
  "parseAuxiliaryValue L buffer type offset = Inr (v, newOffset) \<Longrightarrow> offset < newOffset"
  by (auto simp: parseAuxiliaryValue_def and_then_def Let_def split: if_splits sum.splits)

text \<open>
  The \<open>while\<close> loop of \<open>parseAuxiliaryStandard\<close>. Reading the marker and the type is
  outside the \<open>try\<close> block, so a read beyond the buffer throws; the value is parsed inside
  it, and when that throws the loop is left with the values collected so far. The end
  offset is \<open>16 + Number(totalSize)\<close>, an integer here.
\<close>

function parseAuxiliaryStandard_loop ::
  "plist_codec \<Rightarrow> buffer \<Rightarrow> int \<Rightarrow> plist list \<Rightarrow> nat \<Rightarrow> error + plist list" where
  "parseAuxiliaryStandard_loop L buffer endOffset values offset =
     (if int offset < endOffset \<and> offset < length buffer then
        and_then (readUInt32LE offset buffer) (\<lambda>marker.
          (let offset1 = (if marker \<noteq> EMPTY_DICTIONARY then offset else offset + 4) in
           and_then (readUInt32LE offset1 buffer) (\<lambda>type.
             (case parseAuxiliaryValue L buffer type (offset1 + 4) of
                Inr (v, newOffset) \<Rightarrow>
                  parseAuxiliaryStandard_loop L buffer endOffset (values @ [v]) newOffset
              | Inl e \<Rightarrow> Inr values))))
      else Inr values)"
  by pat_completeness auto
termination
  by (relation "measure (\<lambda>(L, buffer, endOffset, values, offset). length buffer - offset)")
    (auto dest!: parseAuxiliaryValue_advances split: if_splits)

declare parseAuxiliaryStandard_loop.simps [simp del]

definition parseAuxiliaryStandard :: "plist_codec \<Rightarrow> buffer \<Rightarrow> error + plist list" where
  "parseAuxiliaryStandard L buffer =
     and_then (readBigUInt64LE 8 buffer) (\<lambda>totalSize.
       parseAuxiliaryStandard_loop L buffer (16 + totalSize) [] 16)"

text \<open>
  \<open>buffer.toString('ascii', start, end)\<close> drops the high bit of every byte; the search for
  the \<open>bplist00\<close> marker runs over the first \<open>min(100, length - 8)\<close> offsets and stops at
  the first match.
\<close>

definition ascii_slice :: "buffer \<Rightarrow> nat \<Rightarrow> nat \<Rightarrow> buffer" where
  "ascii_slice buf start end = map (\<lambda>b. b AND 0x7f) (subarray buf start end)"

fun parseAuxiliaryAsBplist_loop :: "plist_codec \<Rightarrow> buffer \<Rightarrow> nat \<Rightarrow> nat \<Rightarrow> plist list" where
  "parseAuxiliaryAsBplist_loop L buffer i 0 = []"
| "parseAuxiliaryAsBplist_loop L buffer i (Suc n) =
     (if ascii_slice buffer i (i + 8) = bytes_of ''bplist00'' then
        (case parseBinaryPlist L (drop i buffer) of
           Inr (PArr xs) \<Rightarrow> xs
         | Inr parsed \<Rightarrow> [parsed]
         | Inl e \<Rightarrow> [])
      else parseAuxiliaryAsBplist_loop L buffer (i + 1) n)"

definition parseAuxiliaryAsBplist :: "plist_codec \<Rightarrow> buffer \<Rightarrow> plist list" where
  "parseAuxiliaryAsBplist L buffer =
     parseAuxiliaryAsBplist_loop L buffer 0 (min 100 (length buffer - 8))"

definition parseAuxiliaryData :: "plist_codec \<Rightarrow> buffer \<Rightarrow> error + plist list" where
  "parseAuxiliaryData L buffer =
     (if length buffer < 16 then Inr []
      else
        and_then (readBigUInt64LE 0 buffer) (\<lambda>m.
          if m \<noteq> MESSAGE_AUX_MAGIC then Inr (parseAuxiliaryAsBplist L buffer)
          else parseAuxiliaryStandard L buffer))"

text \<open>\<open>(payloadHeader.flags & 0xff000) >> 12\<close>.\<close>

definition compression :: "DTXMessagePayloadHeader \<Rightarrow> int" where
  "compression payloadHeader = drop_bit 12 (flags payloadHeader AND 0xff000)"

text \<open>
  The body of \<open>recvMessage\<close> after \<open>recvPacketFragments\<close> has returned the packet: the
  object data (or \<open>null\<close>) and the auxiliary values.
\<close>

definition recvMessage_packet ::
  "plist_codec \<Rightarrow> buffer \<Rightarrow> error + (buffer option \<times> plist list)" where
  "recvMessage_packet L packet =
     and_then (parsePayloadHeader packet) (\<lambda>payloadHeader.
       if compression payloadHeader \<noteq> 0
       then Inl (Error ''Compressed messages not supported'')
       else
         (let offset = PAYLOAD_HEADER_SIZE;
              auxLen = nat (auxiliaryLength payloadHeader)
          in and_then
               (if auxiliaryLength payloadHeader > 0
                then parseAuxiliaryData L (subarray packet offset (offset + auxLen))
                else Inr [])
               (\<lambda>aux.
                  (let offset1 = (if auxiliaryLength payloadHeader > 0 then offset + auxLen
                                  else offset);
                       objSize = totalLength payloadHeader - auxiliaryLength payloadHeader
                   in Inr (if objSize > 0
                           then Some (subarray packet offset1 (offset1 + nat objSize))
                           else None,
                           aux)))))"

text \<open>
  For the examples: a codec that parses nothing, and a packet whose auxiliary section holds
  the 32-bit integer 7 followed by an item of the unknown type 99.
\<close>

definition no_plists :: plist_codec where
  "no_plists = \<lparr>parseBinaryPlist = (\<lambda>b. Inl (Error ''not a binary plist'')),
                createBinaryPlist = (\<lambda>v. Inl (Error ''cannot encode''))\<rparr>"

definition unknown_aux_packet :: buffer where
  "unknown_aux_packet =
     le_bytes 4 2 @ le_bytes 4 40 @ le_bytes 8 40 @
     le_bytes 8 0x1f0 @ le_bytes 8 24 @
     le_bytes 4 0xa @ le_bytes 4 3 @ le_bytes 4 7 @
     le_bytes 4 0xa @ le_bytes 4 99 @ le_bytes 4 0"

text \<open>
  The wire form of a message as \<open>buildAuxiliaryData\<close> and \<open>sendMessage\<close> lay it out: an
  item for a 32-bit integer (dictionary marker, type 3, value); a run of such items
  followed by one more item with the given type code and bytes; the auxiliary section, a
  16-byte header with the magic and the size of the items before them; and the payload,
  a 16-byte payload header with the flags, the auxiliary length and the total length
  before the auxiliary section and the object data. \<open>unknown_aux_message\<close> is such a
  payload: the integer 7, an item of the unknown type 99, and three bytes of object data.
\<close>

definition int32_item :: "int \<Rightarrow> buffer" where
  "int32_item v = le_bytes 4 EMPTY_DICTIONARY @ le_bytes 4 AUX_TYPE_INT32 @ le_bytes 4 v"

definition aux_items_then :: "int list \<Rightarrow> int \<Rightarrow> buffer \<Rightarrow> buffer" where
  "aux_items_then xs ty rest =
     concat (map int32_item xs) @ le_bytes 4 EMPTY_DICTIONARY @ le_bytes 4 ty @ rest"

definition aux_section :: "int list \<Rightarrow> int \<Rightarrow> buffer \<Rightarrow> buffer" where
  "aux_section xs ty rest =
     le_bytes 8 MESSAGE_AUX_MAGIC @ le_bytes 8 (int (length (aux_items_then xs ty rest))) @
     aux_items_then xs ty rest"

definition payload_with_aux :: "int \<Rightarrow> buffer \<Rightarrow> buffer \<Rightarrow> buffer" where
  "payload_with_aux fl aux obj =
     le_bytes 4 fl @ le_bytes 4 (int (length aux)) @ le_bytes 8 (int (length aux + length obj)) @
     aux @ obj"

definition unknown_aux_message :: buffer where
  "unknown_aux_message =
     payload_with_aux 2 (aux_section [7] 99 (le_bytes 4 0)) [1, 2, 3]"

section \<open>Instrumentation service (dvt/index.ts, dvt/channel.ts, dvt/utils.ts)\<close>

record MessageAuxValue =
  aux_type :: int
  aux_value :: plist

type_synonym MessageAux = "MessageAuxValue list"

definition appendInt :: "int \<Rightarrow> MessageAux \<Rightarrow> MessageAux" where
  "appendInt v vs = vs @ [\<lparr>aux_type = AUX_TYPE_INT32, aux_value = PNum v\<rparr>]"

definition appendLong :: "int \<Rightarrow> MessageAux \<Rightarrow> MessageAux" where
  "appendLong v vs = vs @ [\<lparr>aux_type = AUX_TYPE_INT64, aux_value = PNum v\<rparr>]"

definition appendObj :: "plist \<Rightarrow> MessageAux \<Rightarrow> MessageAux" where
  "appendObj v vs = vs @ [\<lparr>aux_type = AUX_TYPE_OBJECT, aux_value = v\<rparr>]"

text \<open>
  A \<open>Channel\<close> object holds its channel code and a reference to the service. Within one
  service every channel is created with a fresh code, so the code stands for the identity
  of the object.
\<close>

record Channel =
  channel_code :: int

text \<open>
  The socket as the service sees it: the bytes that will arrive (the read buffer followed
  by what the peer still sends), the messages written so far, and the error that a write
  reports, if the socket is broken. The service state is the fields of the class;
  \<open>connection\<close> and \<open>socket\<close> are set and cleared together and are one field here.
\<close>

record dvt_socket =
  sock_inbound :: buffer
  sock_written :: "buffer list"
  sock_write_error :: "error option"

record DVTService =
  socket :: "dvt_socket option"
  lastChannelCode :: int
  curMessageId :: int
  channelCache :: "string \<rightharpoonup> Channel"
  channelMessages :: "int \<rightharpoonup> ChannelFragmenter"
  isHandshakeComplete :: bool

definition BROADCAST_CHANNEL :: int where "BROADCAST_CHANNEL = 0"

text \<open>
  \<open>archiveValue\<close> wraps a value into a one- or two-entry archive and hands it to the codec;
  the \<open>PlistUID\<close> of the root is an object with the field \<open>value\<close>.
\<close>

definition archiveValue :: "plist_codec \<Rightarrow> plist \<Rightarrow> error + buffer" where
  "archiveValue L v =
     (let rootIndex = (if v = PNull then 0 else 1);
          objects = (if v = PNull then [PStr ''$null''] else [PStr ''$null'', v]);
          archived = PObj [(''$version'', PNum 100000),
                           (''$archiver'', PStr ''NSKeyedArchiver''),
                           (''$top'', PObj [(''root'', PObj [(''value'', PNum rootIndex)])]),
                           (''$objects'', PArr objects)]
      in createBinaryPlist L archived)"

definition archiveSelector :: "plist_codec \<Rightarrow> string \<Rightarrow> error + buffer" where
  "archiveSelector L selector = archiveValue L (PStr selector)"

text \<open>
  \<open>buildAuxiliaryData\<close>: per value the dictionary marker, the type and the encoded value;
  then the 16-byte header with the magic and the size of the items. The typed builders of
  \<open>MessageAux\<close> store a number under the two integer types; anything else there makes the
  Buffer writer throw.
\<close>

definition buildAuxiliaryItem :: "plist_codec \<Rightarrow> MessageAuxValue \<Rightarrow> error + buffer" where
  "buildAuxiliaryItem L auxValue =
     and_then (writeUInt32LE EMPTY_DICTIONARY 0 (alloc 4)) (\<lambda>dictMarker.
     and_then (writeUInt32LE (aux_type auxValue) 0 (alloc 4)) (\<lambda>typeBuffer.
       if aux_type auxValue = AUX_TYPE_INT32 then
         (case aux_value auxValue of
            PNum v \<Rightarrow> and_then (writeUInt32LE v 0 (alloc 4)) (\<lambda>valueBuffer.
                        Inr (dictMarker @ typeBuffer @ valueBuffer))
          | _ \<Rightarrow> Inl (Error ''The value argument must be of type number''))
       else if aux_type auxValue = AUX_TYPE_INT64 then
         (case aux_value auxValue of
            PNum v \<Rightarrow> and_then (writeBigUInt64LE v 0 (alloc 8)) (\<lambda>valueBuffer.
                        Inr (dictMarker @ typeBuffer @ valueBuffer))
          | _ \<Rightarrow> Inl (Error ''Cannot convert the value to a BigInt''))
       else if aux_type auxValue = AUX_TYPE_OBJECT then
         and_then (archiveValue L (aux_value auxValue)) (\<lambda>encodedPlist.
         and_then (writeUInt32LE (int (length encodedPlist)) 0 (alloc 4)) (\<lambda>lengthBuffer.
           Inr (dictMarker @ typeBuffer @ lengthBuffer @ encodedPlist)))
       else Inl (Error ''Unsupported auxiliary type'')))"

fun buildAuxiliaryItems :: "plist_codec \<Rightarrow> MessageAux \<Rightarrow> error + buffer" where
  "buildAuxiliaryItems L [] = Inr []"
| "buildAuxiliaryItems L (auxValue # rest) =
     and_then (buildAuxiliaryItem L auxValue) (\<lambda>item.
     and_then (buildAuxiliaryItems L rest) (\<lambda>items. Inr (item @ items)))"

definition buildAuxiliaryData :: "plist_codec \<Rightarrow> MessageAux \<Rightarrow> error + buffer" where
  "buildAuxiliaryData L args =
     (if args = [] then Inr []
      else
        and_then (buildAuxiliaryItems L args) (\<lambda>itemsData.
        and_then (writeBigUInt64LE MESSAGE_AUX_MAGIC 0 (alloc 16)) (\<lambda>header.
        and_then (writeBigUInt64LE (int (length itemsData)) 8 header) (\<lambda>header.
          Inr (header @ itemsData)))))"

text \<open>
  The bytes of the message that \<open>sendMessage\<close> writes, for the message identifier it has
  just allocated.
\<close>

definition encodeMessage ::
  "plist_codec \<Rightarrow> int \<Rightarrow> int \<Rightarrow> string option \<Rightarrow> MessageAux option \<Rightarrow> bool \<Rightarrow> error + buffer" where
  "encodeMessage L messageId channel selector args expectsReply_flag =
     and_then (case args of Some a \<Rightarrow> buildAuxiliaryData L a | None \<Rightarrow> Inr []) (\<lambda>auxBuffer.
     and_then (case selector of
                 Some sel \<Rightarrow> (if sel \<noteq> [] then archiveSelector L sel else Inr [])
               | None \<Rightarrow> Inr []) (\<lambda>selectorBuffer.
     and_then (buildPayloadHeader
                 \<lparr>flags = (if expectsReply_flag
                            then INSTRUMENTS_MESSAGE_TYPE OR EXPECTS_REPLY_MASK
                            else INSTRUMENTS_MESSAGE_TYPE),
                  auxiliaryLength = int (length auxBuffer),
                  totalLength = int (length auxBuffer + length selectorBuffer)\<rparr>) (\<lambda>payloadHeader.
     and_then (buildMessageHeader
                 \<lparr>magic = MESSAGE_HEADER_MAGIC, cb = int MESSAGE_HEADER_SIZE,
                  fragmentId = 0, fragmentCount = 1,
                  length_field = int (PAYLOAD_HEADER_SIZE + length auxBuffer + length selectorBuffer),
                  identifier_field = messageId, conversationIndex = 0,
                  channelCode = channel,
                  expectsReply = (if expectsReply_flag then 1 else 0)\<rparr>) (\<lambda>messageHeader.
       Inr (messageHeader @ payloadHeader @ auxBuffer @ selectorBuffer)))))"

definition sendMessage ::
  "plist_codec \<Rightarrow> int \<Rightarrow> string option \<Rightarrow> MessageAux option \<Rightarrow> bool \<Rightarrow> DVTService
     \<Rightarrow> (error + unit) \<times> DVTService" where
  "sendMessage L channel selector args expectsReply_flag s =
     (case socket s of
        None \<Rightarrow> (Inl (Error ''Not connected to DVT service''), s)
      | Some sock \<Rightarrow>
          (let s1 = s\<lparr>curMessageId := curMessageId s + 1\<rparr> in
           case encodeMessage L (curMessageId s1) channel selector args expectsReply_flag of
             Inl e \<Rightarrow> (Inl e, s1)
           | Inr message \<Rightarrow>
               (case sock_write_error sock of
                  Some e \<Rightarrow> (Inl e, s1)
                | None \<Rightarrow>
                    (Inr (),
                     s1\<lparr>socket := Some (sock\<lparr>sock_written := sock_written sock @ [message]\<rparr>)\<rparr>))))"

text \<open>
  \<open>readExact\<close> of the service has no timeout: with fewer bytes than asked for it waits
  forever, which is the result \<open>None\<close>.
\<close>

definition service_readExact ::
  "nat \<Rightarrow> DVTService \<Rightarrow> ((error + buffer) \<times> DVTService) option" where
  "service_readExact n s =
     (case socket s of
        None \<Rightarrow> Some (Inl (Error ''is not initialized. Call connect() before sending messages.''), s)
      | Some sock \<Rightarrow>
          (if length (sock_inbound sock) < n then None
           else Some (Inr (take n (sock_inbound sock)),
                      s\<lparr>socket := Some (sock\<lparr>sock_inbound := drop n (sock_inbound sock)\<rparr>)\<rparr>)))"

text \<open>The number of bytes still to arrive; every header read consumes 32 of them.\<close>

definition pending :: "DVTService \<Rightarrow> nat" where
  "pending s = (case socket s of None \<Rightarrow> 0 | Some sock \<Rightarrow> length (sock_inbound sock))"

lemma service_readExact_pending:
  "service_readExact n s = Some (Inr d, s1) \<Longrightarrow> pending s1 + n = pending s"
  by (auto simp: service_readExact_def pending_def split: option.splits if_splits)

text \<open>
  What the loop of \<open>recvPacketFragments\<close> does with a header: create the fragmenter of
  its channel if there is none and advance the message identifier; and, once the payload
  is read, add the fragment to that channel.
\<close>

definition note_header :: "DTXMessageHeader \<Rightarrow> DVTService \<Rightarrow> DVTService" where
  "note_header header s =
     (let receivedChannel = \<bar>channelCode header\<bar>;
          s1 = (if channelMessages s receivedChannel = None
                then s\<lparr>channelMessages := (channelMessages s)(receivedChannel \<mapsto> new_ChannelFragmenter)\<rparr>
                else s)
      in if conversationIndex header = 0 \<and> identifier_field header > curMessageId s1
         then s1\<lparr>curMessageId := identifier_field header\<rparr>
         else s1)"

definition add_to_channel :: "DTXMessageHeader \<Rightarrow> buffer \<Rightarrow> DVTService \<Rightarrow> DVTService" where
  "add_to_channel header messageData s =
     (let receivedChannel = \<bar>channelCode header\<bar> in
      case channelMessages s receivedChannel of
        None \<Rightarrow> s
      | Some targetFragmenter \<Rightarrow>
          s\<lparr>channelMessages :=
               (channelMessages s)(receivedChannel \<mapsto> addFragment header messageData targetFragmenter)\<rparr>)"

lemma pending_note_header [simp]: "pending (note_header header s) = pending s"
  by (simp add: note_header_def pending_def Let_def)

lemma pending_add_to_channel [simp]: "pending (add_to_channel header d s) = pending s"
  by (simp add: add_to_channel_def pending_def Let_def split: option.splits)

function recvPacketFragments ::
  "int \<Rightarrow> DVTService \<Rightarrow> ((error + buffer) \<times> DVTService) option" where
  "recvPacketFragments channel s =
     (case channelMessages s channel of
        None \<Rightarrow> Some (Inl (Error ''No fragmenter for channel''), s)
      | Some fragmenter \<Rightarrow>
          (case get fragmenter of
             (Some message, fragmenter1) \<Rightarrow>
               Some (Inr message,
                     s\<lparr>channelMessages := (channelMessages s)(channel \<mapsto> fragmenter1)\<rparr>)
           | (None, fragmenter1) \<Rightarrow>
               (case service_readExact MESSAGE_HEADER_SIZE s of
                  None \<Rightarrow> None
                | Some (Inl e, s1) \<Rightarrow> Some (Inl e, s1)
                | Some (Inr headerData, s1) \<Rightarrow>
                    (case parseMessageHeader headerData of
                       Inl e \<Rightarrow> Some (Inl e, s1)
                     | Inr header \<Rightarrow>
                         (let s2 = note_header header s1 in
                          if fragmentCount header > 1 \<and> fragmentId header = 0
                          then recvPacketFragments channel s2
                          else
                            (case service_readExact (nat (length_field header)) s2 of
                               None \<Rightarrow> None
                             | Some (Inl e, s3) \<Rightarrow> Some (Inl e, s3)
                             | Some (Inr messageData, s3) \<Rightarrow>
                                 recvPacketFragments channel
                                   (add_to_channel header messageData s3)))))))"
  by pat_completeness auto
termination
proof (relation "measure (\<lambda>(channel, s). pending s)", goal_cases)
  case 1
  show ?case by simp
next
  case (2 channel s fragmenter x y x2 r s1 headerData header s2)
  then show ?case
    by (auto dest!: service_readExact_pending simp: MESSAGE_HEADER_SIZE_def)
next
  case (3 channel s fragmenter x y x2 r s1 headerData header s2 x2a r3 s3 messageData)
  then show ?case
    by (auto dest!: service_readExact_pending simp: MESSAGE_HEADER_SIZE_def)
qed

declare recvPacketFragments.simps [simp del]

definition recvMessage ::
  "plist_codec \<Rightarrow> int \<Rightarrow> DVTService
     \<Rightarrow> ((error + (buffer option \<times> plist list)) \<times> DVTService) option" where
  "recvMessage L channel s =
     (case recvPacketFragments channel s of
        None \<Rightarrow> None
      | Some (Inl e, s1) \<Rightarrow> Some (Inl e, s1)
      | Some (Inr packet, s1) \<Rightarrow> Some (recvMessage_packet L packet, s1))"

definition recvPlist ::
  "plist_codec \<Rightarrow> int \<Rightarrow> DVTService \<Rightarrow> ((error + (plist \<times> plist list)) \<times> DVTService) option" where
  "recvPlist L channel s =
     (case recvMessage L channel s of
        None \<Rightarrow> None
      | Some (Inl e, s1) \<Rightarrow> Some (Inl e, s1)
      | Some (Inr (data, aux), s1) \<Rightarrow>
          Some (Inr (case data of
                       None \<Rightarrow> PNull
                     | Some d \<Rightarrow>
                         (if d = [] then PNull
                          else case parseBinaryPlist L d of
                                 Inl e \<Rightarrow> PNull
                               | Inr parsed \<Rightarrow> decodeNSKeyedArchiver parsed),
                     aux), s1))"

text \<open>The helpers of dvt/utils.ts that \<open>checkForNSError\<close> uses.\<close>

definition isPlainObject :: "plist \<Rightarrow> bool" where
  "isPlainObject v = (case v of PObj fs \<Rightarrow> True | PBuffer b \<Rightarrow> True | _ \<Rightarrow> False)"

definition own_props :: "plist \<Rightarrow> (string \<times> plist) list" where
  "own_props v = (case v of PObj fs \<Rightarrow> fs | _ \<Rightarrow> [])"

definition hasProperties :: "plist \<Rightarrow> string list \<Rightarrow> bool" where
  "hasProperties obj props =
     (if isPlainObject obj then list_all (\<lambda>p. has_key p (own_props obj)) props else False)"

definition isNSKeyedArchiverFormat :: "plist \<Rightarrow> bool" where
  "isNSKeyedArchiverFormat data =
     (hasProperties data [''$objects''] \<and>
      (case get_prop (own_props data) ''$objects'' of PArr xs \<Rightarrow> xs \<noteq> [] | _ \<Rightarrow> False))"

definition hasNSErrorIndicators :: "plist \<Rightarrow> bool" where
  "hasNSErrorIndicators obj =
     (if \<not> isPlainObject obj then False
      else list_ex (\<lambda>p. has_key p (own_props obj)) [''NSCode'', ''NSUserInfo'', ''NSDomain''])"

definition extractNSKeyedArchiverObjects :: "plist \<Rightarrow> plist list option" where
  "extractNSKeyedArchiverObjects data =
     (if \<not> isNSKeyedArchiverFormat data then None
      else case get_prop (own_props data) ''$objects'' of
             PArr objects \<Rightarrow> (if length objects > 1 then Some objects else None)
           | _ \<Rightarrow> None)"

definition MIN_ERROR_DESCRIPTION_LENGTH :: nat where "MIN_ERROR_DESCRIPTION_LENGTH = 20"

definition error_description :: "plist list \<Rightarrow> string" where
  "error_description objects =
     (case find (\<lambda>ob. case ob of PStr str \<Rightarrow> length str > MIN_ERROR_DESCRIPTION_LENGTH
                               | _ \<Rightarrow> False) objects of
        Some (PStr str) \<Rightarrow> str
      | _ \<Rightarrow> ''Unknown error'')"

text \<open>
  \<open>checkForNSError\<close> throws with the context and a description; the JSON text of the
  second message is left out.
\<close>

definition checkForNSError :: "plist \<Rightarrow> string \<Rightarrow> error + unit" where
  "checkForNSError response ctxt =
     (if \<not> truthy response \<or> \<not> is_object response then Inr ()
      else
        (case (case extractNSKeyedArchiverObjects response of
                 Some objects \<Rightarrow>
                   (if list_ex hasNSErrorIndicators objects
                    then Inl (Error (ctxt @ '': '' @ error_description objects))
                    else Inr ())
               | None \<Rightarrow> Inr ()) of
           Inl e \<Rightarrow> Inl e
         | Inr u \<Rightarrow>
             (if hasNSErrorIndicators response then Inl (Error (ctxt @ '': '')) else Inr ())))"

text \<open>What sending and receiving leave alone: the channel counter, the cache and the handshake flag; receiving also the messages written.\<close>

definition keeps_channels :: "DVTService \<Rightarrow> DVTService \<Rightarrow> bool" where
  "keeps_channels s s' =
     (lastChannelCode s' = lastChannelCode s \<and>
      isHandshakeComplete s' = isHandshakeComplete s \<and>
      channelCache s' = channelCache s \<and>
      map_option sock_written (socket s') = map_option sock_written (socket s))"

definition makeChannel ::
  "plist_codec \<Rightarrow> string \<Rightarrow> DVTService \<Rightarrow> ((error + Channel) \<times> DVTService) option" where
  "makeChannel L ident s =
     (if \<not> isHandshakeComplete s
      then Some (Inl (Error ''Handshake not complete. Call connect() first.''), s)
      else case channelCache s ident of
        Some ch \<Rightarrow> Some (Inr ch, s)
      | None \<Rightarrow>
          (let s1 = s\<lparr>lastChannelCode := lastChannelCode s + 1\<rparr>;
               code = lastChannelCode s1;
               args = appendObj (PStr ident) (appendInt code [])
           in case sendMessage L 0 (Some ''_requestChannelWithCode:identifier:'') (Some args)
                     True s1 of
                (Inl e, s2) \<Rightarrow> Some (Inl e, s2)
              | (Inr u, s2) \<Rightarrow>
                  (case recvPlist L BROADCAST_CHANNEL s2 of
                     None \<Rightarrow> None
                   | Some (Inl e, s3) \<Rightarrow> Some (Inl e, s3)
                   | Some (Inr (ret, aux), s3) \<Rightarrow>
                       (case checkForNSError ret ''Failed to create channel'' of
                          Inl e \<Rightarrow> Some (Inl e, s3)
                        | Inr u \<Rightarrow>
                            (let channel = \<lparr>channel_code = code\<rparr> in
                             Some (Inr channel,
                                   s3\<lparr>channelCache := (channelCache s3)(ident \<mapsto> channel),
                                      channelMessages :=
                                        (channelMessages s3)(code \<mapsto> new_ChannelFragmenter)\<rparr>))))))"

section \<open>File-conduit service (afc/index.ts)\<close>

text \<open>
  Of the enums that afc/enums.ts declares, the members that the
  service names are declared here, every other status code is \<open>OTHER_STATUS\<close>.
\<close>

datatype AfcOpcode =
  STATUS | READ_DIR | GET_FILE_INFO | FILE_OPEN | FILE_CLOSE | REMOVE_PATH | RENAME_PATH
  | READ | WRITE

datatype AfcError = SUCCESS | OBJECT_NOT_FOUND | OTHER_STATUS int

datatype AfcFileMode = S_IFDIR | S_IFREG | S_IFLNK | S_IFMT_OTHER string

record StatInfo =
  st_ifmt :: "AfcFileMode option"
  st_size :: int
  st_blocks :: int
  st_mtime :: int
  st_birthtime :: int
  st_nlink :: int
  LinkTarget :: "string option"

text \<open>
  The device is the environment of the service. One request and its response, that is
  \<open>_dispatch\<close> followed by \<open>_receive\<close>, is a function of the opcode, the path in the
  payload and the state of the device: it fails when the transport does (a closed socket,
  a time-out, a bad magic), and otherwise gives the status and the decoded response: the
  entries of a directory, or the typed file information, which is \<open>None\<close> when the
  key/value list of the response cannot be converted, so that \<open>stat\<close> throws.
\<close>

datatype afc_reply = NoData | Names "string list" | FileInfo "StatInfo option"

type_synonym 'd afc_device = "AfcOpcode \<Rightarrow> string \<Rightarrow> 'd \<Rightarrow> (error + AfcError \<times> afc_reply) \<times> 'd"

definition NON_LISTABLE_ENTRIES :: "string list" where
  "NON_LISTABLE_ENTRIES = ['''', ''.'', ''..'']"

definition doOperation ::
  "'d afc_device \<Rightarrow> AfcOpcode \<Rightarrow> string \<Rightarrow> 'd \<Rightarrow> (error + afc_reply) \<times> 'd" where
  "doOperation dev op path d =
     (case dev op path d of
        (Inl e, d1) \<Rightarrow> (Inl e, d1)
      | (Inr (status, data), d1) \<Rightarrow>
          (if status \<noteq> SUCCESS then
             (if status = OBJECT_NOT_FOUND
              then (Inl (Error ''AFC error: OBJECT_NOT_FOUND for operation''), d1)
              else (Inl (Error ''AFC operation failed''), d1))
           else (Inr data, d1)))"

definition listdir :: "'d afc_device \<Rightarrow> string \<Rightarrow> 'd \<Rightarrow> (error + string list) \<times> 'd" where
  "listdir dev dirPath d =
     (case doOperation dev READ_DIR dirPath d of
        (Inl e, d1) \<Rightarrow> (Inl e, d1)
      | (Inr data, d1) \<Rightarrow>
          (Inr (filter (\<lambda>x. x \<notin> set NON_LISTABLE_ENTRIES)
                  (case data of Names entries \<Rightarrow> entries | _ \<Rightarrow> [])), d1))"

definition stat :: "'d afc_device \<Rightarrow> string \<Rightarrow> 'd \<Rightarrow> (error + StatInfo) \<times> 'd" where
  "stat dev filePath d =
     (case doOperation dev GET_FILE_INFO filePath d of
        (Inl e, d1) \<Rightarrow> (Inl e, d1)
      | (Inr data, d1) \<Rightarrow>
          (case data of
             FileInfo (Some out) \<Rightarrow> (Inr out, d1)
           | _ \<Rightarrow> (Inl (Error ''Invalid key/value AFC list''), d1)))"

definition isdir :: "'d afc_device \<Rightarrow> string \<Rightarrow> 'd \<Rightarrow> (error + bool) \<times> 'd" where
  "isdir dev filePath d =
     (case stat dev filePath d of
        (Inl e, d1) \<Rightarrow> (Inl e, d1)
      | (Inr st, d1) \<Rightarrow> (Inr (st_ifmt st = Some S_IFDIR), d1))"

definition exists :: "'d afc_device \<Rightarrow> string \<Rightarrow> 'd \<Rightarrow> (error + bool) \<times> 'd" where
  "exists dev filePath d =
     (case stat dev filePath d of
        (Inr st, d1) \<Rightarrow> (Inr True, d1)
      | (Inl e, d1) \<Rightarrow> (Inr False, d1))"

definition rmSingle :: "'d afc_device \<Rightarrow> string \<Rightarrow> bool \<Rightarrow> 'd \<Rightarrow> (error + bool) \<times> 'd" where
  "rmSingle dev filePath force d =
     (case doOperation dev REMOVE_PATH filePath d of
        (Inr data, d1) \<Rightarrow> (Inr True, d1)
      | (Inl e, d1) \<Rightarrow> (if force then (Inr False, d1) else (Inl e, d1)))"

text \<open>
  \<open>path.posix.join\<close> of two segments: the non-empty ones joined by a slash and
  normalized, that is empty and \<open>.\<close> segments dropped and \<open>..\<close> resolved against the
  segment before it.
\<close>

fun split_path :: "string \<Rightarrow> string \<Rightarrow> string list" where
  "split_path seg [] = [seg]"
| "split_path seg (c # cs) =
     (if c = CHR ''/'' then seg # split_path [] cs else split_path (seg @ [c]) cs)"

fun normalize_segments :: "bool \<Rightarrow> string list \<Rightarrow> string list \<Rightarrow> string list" where
  "normalize_segments allowAboveRoot [] res = rev res"
| "normalize_segments allowAboveRoot (seg # rest) res =
     (if seg = [] \<or> seg = ''.'' then normalize_segments allowAboveRoot rest res
      else if seg = ''..'' then
        (case res of
           top_seg # below \<Rightarrow>
             (if top_seg \<noteq> ''..'' then normalize_segments allowAboveRoot rest below
              else normalize_segments allowAboveRoot rest
                     (if allowAboveRoot then seg # res else res))
         | [] \<Rightarrow> normalize_segments allowAboveRoot rest (if allowAboveRoot then [seg] else []))
      else normalize_segments allowAboveRoot rest (seg # res))"

fun join_with_slash :: "string list \<Rightarrow> string" where
  "join_with_slash [] = []"
| "join_with_slash [seg] = seg"
| "join_with_slash (seg # rest) = seg @ ''/'' @ join_with_slash rest"

definition posix_normalize :: "string \<Rightarrow> string" where
  "posix_normalize path =
     (if path = [] then ''.''
      else
        (let isAbsolute = (hd path = CHR ''/'');
             trailingSeparator = (last path = CHR ''/'');
             body = join_with_slash (normalize_segments (\<not> isAbsolute) (split_path [] path) [])
         in if body = [] then (if isAbsolute then ''/'' else if trailingSeparator then ''./'' else ''.'')
            else (if isAbsolute then ''/'' else []) @ body @ (if trailingSeparator then ''/'' else [])))"

definition posix_join :: "string \<Rightarrow> string \<Rightarrow> string" where
  "posix_join a b =
     (let joined = join_with_slash (filter (\<lambda>p. p \<noteq> []) [a, b]) in
      if joined = [] then ''.'' else posix_normalize joined)"

text \<open>
  \<open>rm\<close> and the loop over the directory entries with the failed paths collected so far.
  How deep the recursion goes is up to the device, so \<open>rm\<close> takes the number of nested
  calls it may make and is \<open>None\<close> when that does not suffice.
\<close>

fun rm :: "'d afc_device \<Rightarrow> nat \<Rightarrow> string \<Rightarrow> bool \<Rightarrow> 'd \<Rightarrow> ((error + string list) \<times> 'd) option"
  and rm_entries ::
    "'d afc_device \<Rightarrow> nat \<Rightarrow> string \<Rightarrow> string list \<Rightarrow> string list \<Rightarrow> 'd
       \<Rightarrow> ((error + string list) \<times> 'd) option"
where
  "rm dev 0 filePath force d = None"
| "rm dev (Suc fuel) filePath force d =
     (case exists dev filePath d of
        (Inl e, d1) \<Rightarrow> Some (Inl e, d1)
      | (Inr False, d1) \<Rightarrow> Some (Inr (if force then [] else [filePath]), d1)
      | (Inr True, d1) \<Rightarrow>
          (case isdir dev filePath d1 of
             (Inl e, d2) \<Rightarrow> Some (Inl e, d2)
           | (Inr False, d2) \<Rightarrow>
               (case rmSingle dev filePath force d2 of
                  (Inl e, d3) \<Rightarrow> Some (Inl e, d3)
                | (Inr True, d3) \<Rightarrow> Some (Inr [], d3)
                | (Inr False, d3) \<Rightarrow> Some (Inr [filePath], d3))
           | (Inr True, d2) \<Rightarrow>
               (case listdir dev filePath d2 of
                  (Inl e, d3) \<Rightarrow> Some (Inl e, d3)
                | (Inr entries, d3) \<Rightarrow>
                    (case rm_entries dev fuel filePath entries [] d3 of
                       None \<Rightarrow> None
                     | Some (Inl e, d4) \<Rightarrow> Some (Inl e, d4)
                     | Some (Inr failedPaths, d4) \<Rightarrow>
                         (case rmSingle dev filePath force d4 of
                            (Inr True, d5) \<Rightarrow> Some (Inr failedPaths, d5)
                          | (Inr False, d5) \<Rightarrow> Some (Inr (failedPaths @ [filePath]), d5)
                          | (Inl err, d5) \<Rightarrow>
                              (if failedPaths \<noteq> [] then Some (Inr (failedPaths @ [filePath]), d5)
                               else Some (Inl err, d5)))))))"
| "rm_entries dev fuel filePath [] failedPaths d = Some (Inr failedPaths, d)"
| "rm_entries dev fuel filePath (entry # rest) failedPaths d =
     (let cur = posix_join filePath entry in
      case isdir dev cur d of
        (Inl e, d1) \<Rightarrow> Some (Inl e, d1)
      | (Inr True, d1) \<Rightarrow>
          (case rm dev fuel cur True d1 of
             None \<Rightarrow> None
           | Some (Inl e, d2) \<Rightarrow> Some (Inl e, d2)
           | Some (Inr sub, d2) \<Rightarrow> rm_entries dev fuel filePath rest (failedPaths @ sub) d2)
      | (Inr False, d1) \<Rightarrow>
          (case rmSingle dev cur True d1 of
             (Inl e, d2) \<Rightarrow> Some (Inl e, d2)
           | (Inr True, d2) \<Rightarrow> rm_entries dev fuel filePath rest failedPaths d2
           | (Inr False, d2) \<Rightarrow> rm_entries dev fuel filePath rest (failedPaths @ [cur]) d2))"

text \<open>
  A device for the examples: a file system of files and directories, each directory with
  the names of its entries. A file and an empty directory can be removed; the remove
  requests that succeeded are logged in order.
\<close>

datatype fs_node = FileNode | DirNode "string list"

record remote_fs =
  nodes :: "string \<rightharpoonup> fs_node"
  removed :: "string list"

definition file_info :: "AfcFileMode \<Rightarrow> StatInfo" where
  "file_info m = \<lparr>st_ifmt = Some m, st_size = 0, st_blocks = 0, st_mtime = 0,
     st_birthtime = 0, st_nlink = 1, LinkTarget = None\<rparr>"

definition present_children :: "remote_fs \<Rightarrow> string \<Rightarrow> string list \<Rightarrow> string list" where
  "present_children fs dir names = filter (\<lambda>n. nodes fs (posix_join dir n) \<noteq> None) names"

definition remote_fs_device :: "remote_fs afc_device" where
  "remote_fs_device op path fs =
     (case op of
        GET_FILE_INFO \<Rightarrow>
          (case nodes fs path of
             None \<Rightarrow> (Inr (OBJECT_NOT_FOUND, NoData), fs)
           | Some FileNode \<Rightarrow> (Inr (SUCCESS, FileInfo (Some (file_info S_IFREG))), fs)
           | Some (DirNode names) \<Rightarrow> (Inr (SUCCESS, FileInfo (Some (file_info S_IFDIR))), fs))
      | READ_DIR \<Rightarrow>
          (case nodes fs path of
             Some (DirNode names) \<Rightarrow>
               (Inr (SUCCESS, Names (''.'' # ''..'' # present_children fs path names)), fs)
           | Some FileNode \<Rightarrow> (Inr (OTHER_STATUS 4, NoData), fs)
           | None \<Rightarrow> (Inr (OBJECT_NOT_FOUND, NoData), fs))
      | REMOVE_PATH \<Rightarrow>
          (case nodes fs path of
             None \<Rightarrow> (Inr (OBJECT_NOT_FOUND, NoData), fs)
           | Some FileNode \<Rightarrow>
               (Inr (SUCCESS, NoData),
                fs\<lparr>nodes := (nodes fs)(path := None), removed := removed fs @ [path]\<rparr>)
           | Some (DirNode names) \<Rightarrow>
               (if present_children fs path names \<noteq> [] then (Inr (OTHER_STATUS 33, NoData), fs)
                else (Inr (SUCCESS, NoData),
                      fs\<lparr>nodes := (nodes fs)(path := None), removed := removed fs @ [path]\<rparr>)))
      | _ \<Rightarrow> (Inr (OTHER_STATUS 7, NoData), fs))"

definition tree_example :: remote_fs where
  "tree_example =
     \<lparr>nodes = [''/tmp/x'' \<mapsto> DirNode [''a.txt'', ''sub''],
               ''/tmp/x/a.txt'' \<mapsto> FileNode, ''/tmp/x/sub'' \<mapsto> DirNode []],
      removed = []\<rparr>"

section \<open>Example devices and services\<close>

text \<open>A device that gives the answer held in its state to every request.\<close>

definition scripted_device :: "(error + AfcError \<times> afc_reply) afc_device" where
  "scripted_device op path answer = (answer, answer)"

text \<open>
  A codec that encodes every value to the same bytes and parses nothing; a single-fragment
  message on channel 0 around a payload; a connected service, past its handshake, with
  the given bytes about to arrive; and two payloads, one with no auxiliary and no object
  data, one with a compression flag.
\<close>

definition stub_codec :: plist_codec where
  "stub_codec = \<lparr>parseBinaryPlist = (\<lambda>b. Inl (Error ''not a binary plist'')),
                 createBinaryPlist = (\<lambda>v. Inr (bytes_of ''bplist00''))\<rparr>"

definition dtx_frame :: "buffer \<Rightarrow> buffer" where
  "dtx_frame payload =
     le_bytes 4 0x1f3d5b79 @ le_bytes 4 32 @ le_bytes 2 0 @ le_bytes 2 1 @
     le_bytes 4 (int (length payload)) @ le_bytes 4 1 @ le_bytes 4 1 @ le_bytes 4 0 @
     le_bytes 4 0 @ payload"

definition incoming_service :: "buffer \<Rightarrow> DVTService" where
  "incoming_service bytes =
     \<lparr>socket = Some \<lparr>sock_inbound = bytes, sock_written = [], sock_write_error = None\<rparr>,
      lastChannelCode = 0, curMessageId = 0, channelCache = Map.empty,
      channelMessages = [0 \<mapsto> new_ChannelFragmenter], isHandshakeComplete = True\<rparr>"

definition empty_reply :: buffer where
  "empty_reply = le_bytes 4 0 @ le_bytes 4 0 @ le_bytes 8 0"

definition compressed_packet :: buffer where
  "compressed_packet = le_bytes 4 0x1002 @ le_bytes 4 0 @ le_bytes 8 0"

section \<open>Theorems\<close>

subsection \<open>Selector conversion\<close>

lemma replace_underscores_length: "length (replace_underscores s) = length s"
  by (simp add: replace_underscores_def)

text \<open>
  Claim C6. The documentation of \<open>Channel.call\<close> promises that \<open>method_name\<close> converts
  to \<open>method:name:\<close> and \<open>_method_name\<close> to \<open>_method:name:\<close>, each word segment followed
  by a colon. The conversion only replaces underscores: on these two names it yields
  \<open>method:name\<close> and \<open>_method:name\<close>, without the closing colon.
\<close>

theorem convertToSelector_drops_final_colon:
  "convertToSelector ''method_name'' = ''method:name'' \<and>
   convertToSelector ''_method_name'' = ''_method:name'' \<and>
   convertToSelector ''method_name'' \<noteq> ''method:name:'' \<and>
   convertToSelector ''_method_name'' \<noteq> ''_method:name:''"
  by (simp add: replace_underscores_def)

subsection \<open>Fragment reassembly\<close>

lemma addFragments_append:
  "addFragments (xs @ ys) f = addFragments ys (addFragments xs f)"
  by (induction xs arbitrary: f) auto

lemma in_order_fragments_nth:
  "in_order_fragments regular frags \<longleftrightarrow>
     frags \<noteq> [] \<and>
     (\<forall>i < length frags.
        fragmentId (fst (frags ! i)) = int i \<and>
        fragmentCount (fst (frags ! i)) = int (length frags) \<and>
        (channelCode (fst (frags ! i)) \<ge> 0) = regular)"
  by (auto simp: in_order_fragments_def list_all_length nth_enumerate_eq)

lemma addFragments_not_final:
  assumes "\<forall>(h, c) \<in> set fs. fragmentId h \<noteq> fragmentCount h - 1 \<and> (channelCode h \<ge> 0) = regular"
  shows "addFragments fs f =
           (if regular then f\<lparr>packetData := packetData f @ concat (map snd fs)\<rparr>
            else f\<lparr>streamPacketData := streamPacketData f @ concat (map snd fs)\<rparr>)"
  using assms
proof (induction fs arbitrary: f)
  case Nil
  then show ?case by simp
next
  case (Cons a fs)
  obtain h c where a: "a = (h, c)" by (cases a)
  from Cons.prems a have nf: "fragmentId h \<noteq> fragmentCount h - 1" and sg: "(channelCode h \<ge> 0) = regular"
    by auto
  from Cons.prems have rest: "\<forall>(h, c) \<in> set fs. fragmentId h \<noteq> fragmentCount h - 1 \<and> (channelCode h \<ge> 0) = regular"
    by auto
  show ?case
    using nf sg Cons.IH [OF rest] by (auto simp: a addFragment_def Let_def)
qed

lemma prefix_not_final:
  assumes io: "in_order_fragments regular frags" and k: "k < length frags"
  shows "\<forall>(h, c) \<in> set (take k frags). fragmentId h \<noteq> fragmentCount h - 1 \<and> (channelCode h \<ge> 0) = regular"
proof -
  {
    fix x assume "x \<in> set (take k frags)"
    then obtain i where i: "i < k" "i < length frags" "x = frags ! i"
      by (auto simp: in_set_conv_nth)
    from io i k have "fragmentId (fst x) = int i" "fragmentCount (fst x) = int (length frags)"
      "(channelCode (fst x) \<ge> 0) = regular"
      by (auto simp: in_order_fragments_nth)
    with i k have "fragmentId (fst x) \<noteq> fragmentCount (fst x) - 1 \<and> (channelCode (fst x) \<ge> 0) = regular"
      by auto
  }
  then show ?thesis by (auto simp: case_prod_beta)
qed

lemma get_before_final:
  assumes io: "in_order_fragments regular frags" and k: "k < length frags"
    and m: "messages f = []"
  shows "fst (get (addFragments (take k frags) f)) = None"
  using addFragments_not_final [OF prefix_not_final [OF io k], of f] m
  by (cases regular) simp_all

lemma after_final:
  assumes io: "in_order_fragments regular frags"
    and m: "messages f = []" and acc: "accumulator regular f = []"
  shows "addFragments frags f =
           (if regular then f\<lparr>messages := [concat (map snd frags)], packetData := []\<rparr>
            else f\<lparr>messages := [concat (map snd frags)], streamPacketData := []\<rparr>)"
proof -
  from io have ne: "frags \<noteq> []" by (simp add: in_order_fragments_nth)
  define n where "n = length frags - 1"
  from ne have n: "n < length frags" and split: "frags = take n frags @ [frags ! n]"
    unfolding n_def
    by (simp_all add: take_Suc_conv_app_nth [symmetric])
  obtain h c where hc: "frags ! n = (h, c)" by (cases "frags ! n")
  from io n have "fragmentId (fst (frags ! n)) = int n \<and>
        fragmentCount (fst (frags ! n)) = int (length frags) \<and>
        (channelCode (fst (frags ! n)) \<ge> 0) = regular"
    by (simp add: in_order_fragments_nth)
  with ne hc have fin: "fragmentId h = fragmentCount h - 1" and sg: "(channelCode h \<ge> 0) = regular"
    by (cases frags, simp_all add: n_def)
  have cc: "concat (map snd frags) = concat (map snd (take n frags)) @ c"
    by (subst split) (simp add: hc)
  have "addFragments frags f = addFragment h c (addFragments (take n frags) f)"
    by (subst split) (simp add: addFragments_append hc)
  also have "\<dots> = (if regular then f\<lparr>messages := [concat (map snd frags)], packetData := []\<rparr>
            else f\<lparr>messages := [concat (map snd frags)], streamPacketData := []\<rparr>)"
    using addFragments_not_final [OF prefix_not_final [OF io n], of f] m acc fin sg
    by (cases regular) (simp_all add: addFragment_def Let_def accumulator_def cc)
  finally show ?thesis .
qed

text \<open>
  Claim C2. For in-order fragments \<open>0 .. n - 1\<close> of one message, all with channel codes
  of the same sign, fed to a fragmenter whose queue and accumulator for that sign are
  empty: \<open>get\<close> returns nothing after any proper prefix; after the final fragment it
  returns the concatenation of the payloads in arrival order, a second \<open>get\<close> returns
  nothing, and the accumulator is empty again.
\<close>

theorem fragments_reassemble:
  assumes "in_order_fragments regular frags"
    and "messages f = []" and "accumulator regular f = []"
  shows "(\<forall>k < length frags. fst (get (addFragments (take k frags) f)) = None) \<and>
         fst (get (addFragments frags f)) = Some (concat (map snd frags)) \<and>
         fst (get (snd (get (addFragments frags f)))) = None \<and>
         accumulator regular (addFragments frags f) = []"
  using get_before_final [OF assms(1) _ assms(2)] after_final [OF assms]
  by (cases regular) (simp_all add: accumulator_def)

theorem fragments_reassemble_witness:
  "in_order_fragments True [(ex_header 0 2 5, [1, 2]), (ex_header 1 2 5, [3])] \<and>
   fst (get (addFragments (take 1 [(ex_header 0 2 5, [1, 2]), (ex_header 1 2 5, [3])])
          new_ChannelFragmenter)) = None \<and>
   fst (get (addFragments [(ex_header 0 2 5, [1, 2]), (ex_header 1 2 5, [3])]
          new_ChannelFragmenter)) = Some [1, 2, 3]"
proof -
  have io: "in_order_fragments True [(ex_header 0 2 5, [1, 2]), (ex_header 1 2 5, [3])]"
    by (simp add: in_order_fragments_def ex_header_def)
  have m: "messages new_ChannelFragmenter = []"
    and a: "accumulator True new_ChannelFragmenter = []"
    by (simp_all add: new_ChannelFragmenter_def accumulator_def)
  note r = fragments_reassemble [OF io m a]
  from r have "fst (get (addFragments (take 1 [(ex_header 0 2 5, [1, 2]), (ex_header 1 2 5, [3])])
          new_ChannelFragmenter)) = None"
    by (elim conjE allE [where x = 1]) simp
  moreover from r have "fst (get (addFragments [(ex_header 0 2 5, [1, 2]), (ex_header 1 2 5, [3])]
          new_ChannelFragmenter)) = Some [1, 2, 3]"
    by (elim conjE) simp
  ultimately show ?thesis using io by blast
qed

subsection \<open>Header codec\<close>

lemma length_le_bytes: "length (le_bytes n v) = n"
  by (induction n arbitrary: v) auto

lemma le_value_le_bytes: "le_value (le_bytes n v) = v mod 2 ^ (8 * n)"
proof (induction n arbitrary: v)
  case 0
  then show ?case by simp
next
  case (Suc n)
  have "le_value (le_bytes (Suc n) v) = v mod 256 + 256 * ((v div 256) mod 2 ^ (8 * n))"
    by (simp add: Suc uint_word_of_int take_bit_eq_mod)
  also have "\<dots> = v mod (256 * 2 ^ (8 * n))"
    by (simp add: zmod_zmult2_eq)
  also have "(256 :: int) * 2 ^ (8 * n) = 2 ^ (8 * Suc n)"
    by (simp add: power_add)
  finally show ?case .
qed

lemma length_copy_into:
  "off + length src \<le> length target \<Longrightarrow> length (copy_into src off target) = length target"
  by (simp add: copy_into_def)

lemma read_copy_same:
  "off + length src \<le> length target \<Longrightarrow>
   take (length src) (drop off (copy_into src off target)) = src"
  by (simp add: copy_into_def)

lemma read_copy_before:
  "off' + length src \<le> length target \<Longrightarrow> off + n \<le> off' \<Longrightarrow>
   take n (drop off (copy_into src off' target)) = take n (drop off target)"
  by (simp add: copy_into_def take_drop)

lemma read_copy_after:
  "off' + length src \<le> length target \<Longrightarrow> off' + length src \<le> off \<Longrightarrow>
   take n (drop off (copy_into src off' target)) = take n (drop off target)"
  by (simp add: copy_into_def)

lemma write_le_ok:
  "lo \<le> v \<Longrightarrow> v \<le> hi \<Longrightarrow> off + n \<le> length buf \<Longrightarrow>
   write_le n lo hi v off buf = Inr (copy_into (le_bytes n v) off buf)"
  by (simp add: write_le_def)

lemma length_copy_le:
  "off + n \<le> length buf \<Longrightarrow> length (copy_into (le_bytes n v) off buf) = length buf"
  by (simp add: length_copy_into length_le_bytes)

lemma read_le_copy_same:
  "off + n \<le> length buf \<Longrightarrow>
   read_le n off (copy_into (le_bytes n v) off buf) = Inr (v mod 2 ^ (8 * n))"
  using read_copy_same [of off "le_bytes n v" buf]
  by (simp add: read_le_def length_copy_le length_le_bytes le_value_le_bytes)

lemma read_le_copy_other:
  "off' + m \<le> length buf \<Longrightarrow> off + n \<le> off' \<or> off' + m \<le> off \<Longrightarrow>
   read_le n off (copy_into (le_bytes m v) off' buf) = read_le n off buf"
  using read_copy_before [of off' "le_bytes m v" buf off n]
    read_copy_after [of off' "le_bytes m v" buf off n]
  by (auto simp add: read_le_def length_copy_le length_le_bytes)

lemma buildMessageHeader_ok:
  assumes "fits_message_header h"
  shows "buildMessageHeader h = Inr
     (copy_into (le_bytes 4 (expectsReply h)) 28
     (copy_into (le_bytes 4 (channelCode h)) 24
     (copy_into (le_bytes 4 (conversationIndex h)) 20
     (copy_into (le_bytes 4 (identifier_field h)) 16
     (copy_into (le_bytes 4 (length_field h)) 12
     (copy_into (le_bytes 2 (fragmentCount h)) 10
     (copy_into (le_bytes 2 (fragmentId h)) 8
     (copy_into (le_bytes 4 (cb h)) 4
     (copy_into (le_bytes 4 (magic h)) 0 (alloc 32))))))))))"
  using assms
  by (simp add: buildMessageHeader_def fits_message_header_def u32_def u16_def i32_def
      writeUInt32LE_def writeUInt16LE_def writeInt32LE_def and_then_def write_le_ok
      length_copy_le alloc_def MESSAGE_HEADER_SIZE_def)

lemma signed32_mod:
  fixes v :: int
  assumes "- (2 ^ 31) \<le> v" "v < 2 ^ 31"
  shows "(if v mod 2 ^ 32 < 2 ^ 31 then v mod 2 ^ 32 else v mod 2 ^ 32 - 2 ^ 32) = v"
proof (cases "0 \<le> v")
  case True
  with assms have "v mod 2 ^ 32 = v" by simp
  with assms show ?thesis by simp
next
  case False
  with assms have "0 \<le> v + 2 ^ 32" "v + 2 ^ 32 < 2 ^ 32" by simp_all
  then have "(v + 2 ^ 32) mod 2 ^ 32 = v + 2 ^ 32"
    by (rule mod_pos_pos_trivial)
  then have "v mod 2 ^ 32 = v + 2 ^ 32" by simp
  with assms False show ?thesis by simp
qed

lemma readInt32LE_copy_same:
  assumes "i32 v" "off + 4 \<le> length buf"
  shows "readInt32LE off (copy_into (le_bytes 4 v) off buf) = Inr v"
proof -
  have "read_le 4 off (copy_into (le_bytes 4 v) off buf) = Inr (v mod 2 ^ 32)"
    using read_le_copy_same [OF assms(2), of v] by simp
  then show ?thesis
    using signed32_mod [of v] assms(1)
    by (simp only: readInt32LE_def and_then_def i32_def sum.case)
qed

lemma readInt32LE_copy_other:
  "off' + m \<le> length buf \<Longrightarrow> off + 4 \<le> off' \<or> off' + m \<le> off \<Longrightarrow>
   readInt32LE off (copy_into (le_bytes m v) off' buf) = readInt32LE off buf"
  by (simp add: readInt32LE_def read_le_copy_other)

lemma unsigned_mod:
  fixes v :: int
  shows "0 \<le> v \<Longrightarrow> v < 2 ^ 16 \<Longrightarrow> v mod 65536 = v"
    and "0 \<le> v \<Longrightarrow> v < 2 ^ 32 \<Longrightarrow> v mod 4294967296 = v"
    and "0 \<le> v \<Longrightarrow> v < 2 ^ 64 \<Longrightarrow> v mod 18446744073709551616 = v"
  by simp_all

lemma message_header_roundtrip_aux:
  assumes "fits_message_header h"
  shows "and_then (buildMessageHeader h) parseMessageHeader = Inr h"
  using assms
  by (simp add: buildMessageHeader_ok and_then_def parseMessageHeader_def
      MESSAGE_HEADER_SIZE_def length_copy_le alloc_def
      readUInt32LE_def readUInt16LE_def
      read_le_copy_same read_le_copy_other readInt32LE_copy_same readInt32LE_copy_other
      fits_message_header_def u32_def u16_def unsigned_mod)

lemma payload_header_roundtrip_aux:
  assumes "fits_payload_header p"
  shows "and_then (buildPayloadHeader p) parsePayloadHeader = Inr p"
  using assms
  by (simp add: buildPayloadHeader_def and_then_def parsePayloadHeader_def
      PAYLOAD_HEADER_SIZE_def length_copy_le alloc_def write_le_ok
      writeUInt32LE_def writeBigUInt64LE_def
      readUInt32LE_def readBigUInt64LE_def
      read_le_copy_same read_le_copy_other
      fits_payload_header_def u32_def u64_def unsigned_mod)

text \<open>
  Claim C3. Decoding an encoded header returns the header, for every message header and
  every payload header whose fields fit their wire widths.
\<close>

theorem header_roundtrip:
  "(fits_message_header h \<longrightarrow> and_then (buildMessageHeader h) parseMessageHeader = Inr h) \<and>
   (fits_payload_header p \<longrightarrow> and_then (buildPayloadHeader p) parsePayloadHeader = Inr p)"
  using message_header_roundtrip_aux [of h] payload_header_roundtrip_aux [of p] by blast

theorem header_roundtrip_witness:
  "fits_message_header (ex_header 1 2 (- 5)) \<and>
   and_then (buildMessageHeader (ex_header 1 2 (- 5))) parseMessageHeader
     = Inr (ex_header 1 2 (- 5)) \<and>
   fits_payload_header \<lparr>flags = 0x1002, auxiliaryLength = 16, totalLength = 2 ^ 40\<rparr> \<and>
   and_then (buildPayloadHeader \<lparr>flags = 0x1002, auxiliaryLength = 16, totalLength = 2 ^ 40\<rparr>)
     parsePayloadHeader
     = Inr \<lparr>flags = 0x1002, auxiliaryLength = 16, totalLength = 2 ^ 40\<rparr>"
proof -
  have m: "fits_message_header (ex_header 1 2 (- 5))"
    by (simp add: fits_message_header_def ex_header_def u32_def u16_def i32_def)
  have p: "fits_payload_header \<lparr>flags = 0x1002, auxiliaryLength = 16, totalLength = 2 ^ 40\<rparr>"
    by (simp add: fits_payload_header_def u32_def u64_def)
  from header_roundtrip [of "ex_header 1 2 (- 5)"
      "\<lparr>flags = 0x1002, auxiliaryLength = 16, totalLength = 2 ^ 40\<rparr>"] m p
  show ?thesis by blast
qed


subsection \<open>Validation on decoding\<close>

lemma le_value_zeros: "le_value (replicate n 0) = 0"
  by (induction n) auto

lemma parseMessageHeader_short:
  "length buf < 32 \<Longrightarrow>
   parseMessageHeader buf = Inl (Error ''Buffer too small for DTX message header'')"
  by (simp add: parseMessageHeader_def MESSAGE_HEADER_SIZE_def)

lemma parseMessageHeader_any_magic:
  "32 \<le> length buf \<Longrightarrow> \<exists>h. parseMessageHeader buf = Inr h \<and> magic h = le_value (take 4 buf)"
  by (simp add: parseMessageHeader_def MESSAGE_HEADER_SIZE_def and_then_def
      readUInt32LE_def readUInt16LE_def readInt32LE_def read_le_def)

lemma readAfcHeader_short:
  "length (arriving few) < 40 \<Longrightarrow> fst (readAfcHeader few) = Inl (rejection (ending few))"
  by (simp add: readAfcHeader_def readExact_def AFC_HEADER_SIZE_def)

lemma readAfcHeader_bad_magic:
  "40 \<le> length (arriving bad) \<Longrightarrow> take 8 (arriving bad) \<noteq> AFCMAGIC \<Longrightarrow>
   fst (readAfcHeader bad) = Inl (Error (''Invalid AFC magic: '' @ hex (take 8 (arriving bad))))"
  by (simp add: readAfcHeader_def readExact_def AFC_HEADER_SIZE_def Let_def)

lemma readAfcHeader_good_magic:
  "40 \<le> length (arriving good) \<Longrightarrow> take 8 (arriving good) = AFCMAGIC \<Longrightarrow>
   \<exists>h. fst (readAfcHeader good) = Inr h \<and> afc_magic h = AFCMAGIC"
  by (simp add: readAfcHeader_def readExact_def AFC_HEADER_SIZE_def Let_def and_then_def
     readUInt64LE_def readBigUInt64LE_def read_le_def)

text \<open>
  Claim C5, as the code has it. \<open>parseMessageHeader\<close> throws on a buffer shorter than
  the 32-byte header and decodes every longer one, whatever its first four bytes: it does
  not look at the magic. \<open>readAfcHeader\<close> throws when fewer than 40 bytes arrive, with the
  error that ends the waiting read (the time-out, the close of the socket or the error of
  the socket), and when the first eight bytes are not the magic; it decodes the header
  otherwise.
\<close>

theorem header_decoding_checks:
  "(length short < 32 \<longrightarrow>
      parseMessageHeader short = Inl (Error ''Buffer too small for DTX message header'')) \<and>
   (32 \<le> length buf \<longrightarrow>
      (\<exists>h. parseMessageHeader buf = Inr h \<and> magic h = le_value (take 4 buf))) \<and>
   (length (arriving few) < 40 \<longrightarrow>
      (\<exists>e. fst (readAfcHeader few) = Inl e) \<and>
      fst (readAfcHeader few) = Inl (rejection (ending few))) \<and>
   (40 \<le> length (arriving bad) \<and> take 8 (arriving bad) \<noteq> AFCMAGIC \<longrightarrow>
      fst (readAfcHeader bad)
        = Inl (Error (''Invalid AFC magic: '' @ hex (take 8 (arriving bad))))) \<and>
   (40 \<le> length (arriving good) \<and> take 8 (arriving good) = AFCMAGIC \<longrightarrow>
      (\<exists>h. fst (readAfcHeader good) = Inr h \<and> afc_magic h = AFCMAGIC))"
  using parseMessageHeader_short [of short] parseMessageHeader_any_magic [of buf]
    readAfcHeader_short [of few] readAfcHeader_bad_magic [of bad]
    readAfcHeader_good_magic [of good]
  by simp

theorem header_decoding_checks_witness:
  "parseMessageHeader (alloc 31) = Inl (Error ''Buffer too small for DTX message header'') \<and>
   (\<exists>h. parseMessageHeader (alloc 32) = Inr h \<and> magic h = 0) \<and>
   fst (readAfcHeader \<lparr>arriving = AFCMAGIC @ alloc 31, ending = TimesOut\<rparr>)
     = Inl (Error ''readExact timeout after 30000ms'') \<and>
   fst (readAfcHeader \<lparr>arriving = AFCMAGIC @ alloc 31, ending = SocketCloses\<rparr>)
     = Inl (Error ''Socket closed'') \<and>
   fst (readAfcHeader \<lparr>arriving = AFCMAGIC @ alloc 31, ending = SocketFails RangeError\<rparr>)
     = Inl RangeError \<and>
   fst (readAfcHeader \<lparr>arriving = alloc 40, ending = TimesOut\<rparr>)
     = Inl (Error ''Invalid AFC magic: 0000000000000000'') \<and>
   (\<exists>h. fst (readAfcHeader \<lparr>arriving = AFCMAGIC @ alloc 32, ending = TimesOut\<rparr>) = Inr h \<and>
        afc_magic h = AFCMAGIC)"
proof -
  have "length (alloc 31) < 32" "32 \<le> length (alloc 32)" "length (AFCMAGIC @ alloc 31) < 40"
    "40 \<le> length (alloc 40) \<and> take 8 (alloc 40) \<noteq> AFCMAGIC"
    "40 \<le> length (AFCMAGIC @ alloc 32) \<and> take 8 (AFCMAGIC @ alloc 32) = AFCMAGIC"
    by code_simp+
  moreover have "le_value (take 4 (alloc 32)) = 0"
    by (simp add: alloc_def le_value_zeros)
  moreover have "hex (take 8 (alloc 40)) = ''0000000000000000''"
    by code_simp
  ultimately show ?thesis
    using
      header_decoding_checks [of "alloc 31" "alloc 32"
        "\<lparr>arriving = AFCMAGIC @ alloc 31, ending = TimesOut\<rparr>"
        "\<lparr>arriving = alloc 40, ending = TimesOut\<rparr>"
        "\<lparr>arriving = AFCMAGIC @ alloc 32, ending = TimesOut\<rparr>"]
      header_decoding_checks [of "alloc 31" "alloc 32"
        "\<lparr>arriving = AFCMAGIC @ alloc 31, ending = SocketCloses\<rparr>"
        "\<lparr>arriving = alloc 40, ending = TimesOut\<rparr>"
        "\<lparr>arriving = AFCMAGIC @ alloc 32, ending = TimesOut\<rparr>"]
      header_decoding_checks [of "alloc 31" "alloc 32"
        "\<lparr>arriving = AFCMAGIC @ alloc 31, ending = SocketFails RangeError\<rparr>"
        "\<lparr>arriving = alloc 40, ending = TimesOut\<rparr>"
        "\<lparr>arriving = AFCMAGIC @ alloc 32, ending = TimesOut\<rparr>"]
    by (simp add: rejection_def)
qed

text \<open>
  A 32-byte buffer of zeros carries no magic, and \<open>parseMessageHeader\<close> decodes it.
\<close>

theorem parseMessageHeader_accepts_wrong_magic:
  "parseMessageHeader (alloc 32) =
     Inr \<lparr>magic = 0, cb = 0, fragmentId = 0, fragmentCount = 0, length_field = 0,
          identifier_field = 0, conversationIndex = 0, channelCode = 0, expectsReply = 0\<rparr> \<and>
   (0 :: int) \<noteq> MESSAGE_HEADER_MAGIC"
  by (simp add: parseMessageHeader_def MESSAGE_HEADER_SIZE_def and_then_def alloc_def
      readUInt32LE_def readUInt16LE_def readInt32LE_def read_le_def le_value_zeros
      MESSAGE_HEADER_MAGIC_def)

subsection \<open>File-conduit packet lengths\<close>

lemma writeUInt64LE_ok: "u64 v \<Longrightarrow> writeUInt64LE v = Inr (le_bytes 8 v)"
  by (simp add: writeUInt64LE_def writeBigUInt64LE_def write_le_def u64_def alloc_def
      copy_into_def length_le_bytes)

lemma length_AFCMAGIC: "length AFCMAGIC = 8"
  by (simp add: AFCMAGIC_def bytes_of_def)

lemma read_le_copy_same':
  "length src = n \<Longrightarrow> off + n \<le> length buf \<Longrightarrow>
   read_le n off (copy_into src off buf) = Inr (le_value src)"
  using read_copy_same [of off src buf]
  by (simp add: read_le_def length_copy_into)

lemma encodeHeader_ok:
  assumes "u64 op" "u64 pn" "u64 (int (40 + len))" "u64 this"
    and o: "ov = None \<and> this = int (40 + len) \<or> ov = Some this"
  shows "\<exists>h. encodeHeader op pn len ov = Inr h \<and> length h = 40 \<and>
     readAfcHeader \<lparr>arriving = h @ payload, ending = e\<rparr> =
       (Inr \<lparr>afc_magic = AFCMAGIC, entireLength = int (40 + len), thisLength = this,
             packetNum = pn, operation = op\<rparr>,
        \<lparr>arriving = payload, ending = e\<rparr>)"
proof -
  define h where "h = copy_into (le_bytes 8 op) 32 (copy_into (le_bytes 8 pn) 24
     (copy_into (le_bytes 8 this) 16 (copy_into (le_bytes 8 (int (40 + len))) 8
       (copy_into AFCMAGIC 0 (alloc 40)))))"
  have enc: "encodeHeader op pn len ov = Inr h"
    using assms(1-4) o
    by (auto simp add: encodeHeader_def Let_def AFC_HEADER_SIZE_def writeUInt64LE_ok
        and_then_def h_def)
  have len: "length h = 40"
    by (simp add: h_def length_copy_into length_le_bytes length_AFCMAGIC alloc_def)
  have mg: "take 8 h = AFCMAGIC"
    using read_copy_same [of 0 AFCMAGIC "alloc 40"]
    by (simp add: h_def copy_into_def length_le_bytes length_AFCMAGIC alloc_def)
  have m: "\<And>v. u64 v \<Longrightarrow> v mod 18446744073709551616 = v"
    by (simp add: u64_def)
  have r1: "read_le 8 8 h = Inr (int (40 + len))"
    and r2: "read_le 8 16 h = Inr this"
    and r3: "read_le 8 24 h = Inr pn"
    and r4: "read_le 8 32 h = Inr op"
    using assms(1-4)
    by (simp_all add: h_def read_le_copy_same read_le_copy_other length_copy_le
        length_copy_into length_AFCMAGIC alloc_def m)
  have "readAfcHeader \<lparr>arriving = h @ payload, ending = e\<rparr> =
       (Inr \<lparr>afc_magic = AFCMAGIC, entireLength = int (40 + len), thisLength = this,
            packetNum = pn, operation = op\<rparr>, \<lparr>arriving = payload, ending = e\<rparr>)"
    by (simp add: readAfcHeader_def readExact_def AFC_HEADER_SIZE_def len mg Let_def
        readUInt64LE_def readBigUInt64LE_def r1 r2 r3 r4 and_then_def)
  with enc len show ?thesis by simp
qed

text \<open>
  Claim C7. In every packet that \<open>_doOperation\<close> dispatches, the entire-length field is
  the 40-byte header size plus the payload length and the this-length field is equal to
  it; in every \<open>WRITE\<close> packet that \<open>fwrite\<close> dispatches, the entire-length field is again
  40 plus the payload length (the 8-byte handle and the chunk) and the this-length field
  is the write override, 48. The fields are those that \<open>readAfcHeader\<close> decodes from the
  packet on a socket, whatever would end a waiting read there.
\<close>

theorem afc_packet_lengths:
  assumes "u64 op" and "u64 pn" and "u64 handle"
    and "u64 (int (40 + length payload))" and "u64 (int (48 + length chunk))"
  shows "(\<exists>wire. doOperation_packet op pn payload = Inr wire \<and>
            readAfcHeader \<lparr>arriving = wire, ending = e\<rparr> =
              (Inr \<lparr>afc_magic = AFCMAGIC, entireLength = int (40 + length payload),
                    thisLength = int (40 + length payload), packetNum = pn,
                    operation = op\<rparr>,
               \<lparr>arriving = payload, ending = e\<rparr>)) \<and>
         (\<exists>wire. fwrite_packet op pn handle chunk = Inr wire \<and>
            readAfcHeader \<lparr>arriving = wire, ending = e\<rparr> =
              (Inr \<lparr>afc_magic = AFCMAGIC, entireLength = int (40 + (8 + length chunk)),
                    thisLength = 48, packetNum = pn, operation = op\<rparr>,
               \<lparr>arriving = le_bytes 8 handle @ chunk, ending = e\<rparr>))"
proof -
  have a: "u64 (int (40 + length (le_bytes 8 handle @ chunk)))"
    using assms(5) by (simp add: length_le_bytes add.commute)
  have b: "u64 48" by (simp add: u64_def)
  from encodeHeader_ok [OF assms(1,2,4,4), of None payload e]
  have one: "\<exists>wire. doOperation_packet op pn payload = Inr wire \<and>
            readAfcHeader \<lparr>arriving = wire, ending = e\<rparr> =
              (Inr \<lparr>afc_magic = AFCMAGIC, entireLength = int (40 + length payload),
                    thisLength = int (40 + length payload), packetNum = pn,
                    operation = op\<rparr>,
               \<lparr>arriving = payload, ending = e\<rparr>)"
    by (auto simp add: doOperation_packet_def sendAfcPacket_def and_then_def)
  from encodeHeader_ok [OF assms(1,2) a b, of "Some 48" "le_bytes 8 handle @ chunk" e]
  have two: "\<exists>wire. fwrite_packet op pn handle chunk = Inr wire \<and>
            readAfcHeader \<lparr>arriving = wire, ending = e\<rparr> =
              (Inr \<lparr>afc_magic = AFCMAGIC, entireLength = int (40 + (8 + length chunk)),
                    thisLength = 48, packetNum = pn, operation = op\<rparr>,
               \<lparr>arriving = le_bytes 8 handle @ chunk, ending = e\<rparr>)"
    using assms(3)
    by (auto simp add: fwrite_packet_def sendAfcPacket_def and_then_def
        writeUInt64LE_ok AFC_WRITE_THIS_LENGTH_def length_le_bytes)
  from one two show ?thesis by blast
qed

theorem afc_packet_lengths_witness:
  "u64 16 \<and> u64 3 \<and> u64 7 \<and>
   (\<exists>wire. doOperation_packet 16 3 (cstr ''/a'') = Inr wire \<and>
      readAfcHeader \<lparr>arriving = wire, ending = TimesOut\<rparr> =
        (Inr \<lparr>afc_magic = AFCMAGIC, entireLength = 43, thisLength = 43, packetNum = 3,
              operation = 16\<rparr>, \<lparr>arriving = cstr ''/a'', ending = TimesOut\<rparr>)) \<and>
   (\<exists>wire. fwrite_packet 16 3 7 [1, 2, 3] = Inr wire \<and>
      readAfcHeader \<lparr>arriving = wire, ending = TimesOut\<rparr> =
        (Inr \<lparr>afc_magic = AFCMAGIC, entireLength = 51, thisLength = 48, packetNum = 3,
              operation = 16\<rparr>, \<lparr>arriving = le_bytes 8 7 @ [1, 2, 3], ending = TimesOut\<rparr>))"
proof -
  have h: "u64 16" "u64 3" "u64 7" "u64 (int (40 + length (cstr ''/a'')))"
    "u64 (int (48 + length [1 :: byte, 2, 3]))"
    by (simp_all add: u64_def cstr_def bytes_of_def NULL_BYTE_def)
  have l: "length (cstr ''/a'') = 3"
    by (simp add: cstr_def bytes_of_def NULL_BYTE_def)
  show ?thesis
    using afc_packet_lengths [OF h, of TimesOut] h(1-3) by (simp add: l)
qed

subsection \<open>Archive decoder\<close>




















subsection \<open>Receiving messages\<close>

lemma keeps_channels_refl [simp]: "keeps_channels s s"
  by (simp add: keeps_channels_def)

lemma keeps_channels_trans:
  "keeps_channels s s1 \<Longrightarrow> keeps_channels s1 s2 \<Longrightarrow> keeps_channels s s2"
  by (simp add: keeps_channels_def)

lemma service_readExact_keeps:
  "service_readExact n s = Some (r, s1) \<Longrightarrow> keeps_channels s s1"
  by (auto simp: service_readExact_def keeps_channels_def split: option.splits if_splits)

lemma note_header_keeps: "keeps_channels s (note_header header s)"
  by (simp add: note_header_def keeps_channels_def Let_def)

lemma add_to_channel_keeps: "keeps_channels s (add_to_channel header d s)"
  by (simp add: add_to_channel_def keeps_channels_def Let_def split: option.splits)

lemma recvPacketFragments_keeps:
  "recvPacketFragments channel s = Some (r, s') \<Longrightarrow> keeps_channels s s'"
proof (induction channel s arbitrary: r s' rule: recvPacketFragments.induct)
  case (1 channel s)
  note unfolded = "1.prems" [unfolded recvPacketFragments.simps [of channel s]]
  show ?case
  proof (cases "channelMessages s channel")
    case None
    with unfolded show ?thesis by simp
  next
    case fr: (Some fragmenter)
    obtain m f1 where g: "get fragmenter = (m, f1)" by (cases "get fragmenter")
    show ?thesis
    proof (cases m)
      case (Some message)
      with unfolded fr g show ?thesis
        by (auto simp del: get.simps simp add: keeps_channels_def)
    next
      case nomsg: None
      show ?thesis
      proof (cases "service_readExact MESSAGE_HEADER_SIZE s")
        case None
        with unfolded fr g nomsg show ?thesis by (simp del: get.simps)
      next
        case (Some a)
        obtain r1 s1 where a: "a = (r1, s1)" by (cases a)
        from Some a have rd: "service_readExact MESSAGE_HEADER_SIZE s = Some (r1, s1)" by simp
        have k1: "keeps_channels s s1" by (rule service_readExact_keeps [OF rd])
        show ?thesis
        proof (cases r1)
          case (Inl e)
          with unfolded fr g nomsg rd k1 show ?thesis by (simp del: get.simps)
        next
          case hd: (Inr headerData)
          show ?thesis
          proof (cases "parseMessageHeader headerData")
            case (Inl e)
            with unfolded fr g nomsg rd hd k1 show ?thesis by (simp del: get.simps)
          next
            case ph: (Inr header)
            define s2 where "s2 = note_header header s1"
            have k2: "keeps_channels s s2"
              unfolding s2_def by (rule keeps_channels_trans [OF k1 note_header_keeps])
            show ?thesis
            proof (cases "fragmentCount header > 1 \<and> fragmentId header = 0")
              case True
              with unfolded fr g nomsg rd hd ph
              have rec: "recvPacketFragments channel s2 = Some (r, s')"
                by (simp del: get.simps add: s2_def Let_def)
              have "keeps_channels s2 s'"
                by (rule "1.IH"(1) [OF fr g [symmetric] nomsg rd [unfolded hd] refl refl ph s2_def True rec])
              with k2 show ?thesis by (rule keeps_channels_trans)
            next
              case notskip: False
              show ?thesis
              proof (cases "service_readExact (nat (length_field header)) s2")
                case None
                with unfolded fr g nomsg rd hd ph notskip show ?thesis
                  by (simp del: get.simps add: s2_def Let_def)
              next
                case (Some b)
                obtain r3 s3 where b: "b = (r3, s3)" by (cases b)
                from Some b have rd2: "service_readExact (nat (length_field header)) s2 = Some (r3, s3)"
                  by simp
                have k3: "keeps_channels s s3"
                  by (rule keeps_channels_trans [OF k2 service_readExact_keeps [OF rd2]])
                show ?thesis
                proof (cases r3)
                  case (Inl e)
                  with unfolded fr g nomsg rd hd ph notskip rd2 k3 show ?thesis
                    by (simp del: get.simps add: s2_def Let_def)
                next
                  case md: (Inr messageData)
                  with unfolded fr g nomsg rd hd ph notskip rd2
                  have rec: "recvPacketFragments channel (add_to_channel header messageData s3)
                      = Some (r, s')"
                    by (simp del: get.simps add: s2_def Let_def)
                  have "keeps_channels (add_to_channel header messageData s3) s'"
                    by (rule "1.IH"(2) [OF fr g [symmetric] nomsg rd [unfolded hd] refl refl ph s2_def
                          notskip rd2 [unfolded md] refl refl rec])
                  with keeps_channels_trans [OF k3 add_to_channel_keeps] show ?thesis
                    by (rule keeps_channels_trans)
                qed
              qed
            qed
          qed
        qed
      qed
    qed
  qed
qed

lemma recvMessage_compressed:
  assumes "recvPacketFragments channel s = Some (Inr packet, s1)"
    and "parsePayloadHeader packet = Inr ph" and "compression ph \<noteq> 0"
  shows "recvMessage L channel s = Some (Inl (Error ''Compressed messages not supported''), s1)"
  using assms by (simp add: recvMessage_def recvMessage_packet_def and_then_def)

lemma parseAuxiliaryValue_unknown:
  "ty \<noteq> AUX_TYPE_OBJECT \<Longrightarrow> ty \<noteq> AUX_TYPE_INT32 \<Longrightarrow> ty \<noteq> AUX_TYPE_INT64 \<Longrightarrow>
   parseAuxiliaryValue L buffer ty offset = Inl (Error ''Unknown auxiliary type'')"
  by (simp add: parseAuxiliaryValue_def)

lemma loop_stops_at_unknown_type:
  assumes "int offset < endOffset" and "offset < length buffer"
    and "readUInt32LE offset buffer = Inr marker"
    and "readUInt32LE (if marker \<noteq> EMPTY_DICTIONARY then offset else offset + 4) buffer = Inr ty"
    and "ty \<noteq> AUX_TYPE_OBJECT" "ty \<noteq> AUX_TYPE_INT32" "ty \<noteq> AUX_TYPE_INT64"
  shows "parseAuxiliaryStandard_loop L buffer endOffset vals offset = Inr vals"
  using assms
  by (subst parseAuxiliaryStandard_loop.simps)
    (simp add: and_then_def Let_def parseAuxiliaryValue_unknown)

lemma read_le_error: "read_le n off buf = Inl e \<Longrightarrow> e = RangeError"
  by (simp add: read_le_def split: if_splits)

lemma loop_error_is_range:
  "parseAuxiliaryStandard_loop L buffer endOffset vals offset = Inl e \<Longrightarrow> e = RangeError"
proof (induction L buffer endOffset vals offset rule: parseAuxiliaryStandard_loop.induct)
  case (1 L buffer endOffset vals offset)
  note unfolded = "1.prems" [unfolded parseAuxiliaryStandard_loop.simps [of L buffer endOffset vals offset]]
  show ?case
  proof (cases "int offset < endOffset \<and> offset < length buffer")
    case False
    with unfolded show ?thesis by simp
  next
    case inside: True
    show ?thesis
    proof (cases "readUInt32LE offset buffer")
      case (Inl e1)
      with unfolded inside show ?thesis
        by (auto simp: and_then_def readUInt32LE_def dest: read_le_error)
    next
      case mk: (Inr marker)
      define offset1 where "offset1 = (if marker \<noteq> EMPTY_DICTIONARY then offset else offset + 4)"
      show ?thesis
      proof (cases "readUInt32LE offset1 buffer")
        case (Inl e1)
        with unfolded inside mk show ?thesis
          by (auto simp: and_then_def readUInt32LE_def Let_def offset1_def dest: read_le_error)
      next
        case ty: (Inr type)
        show ?thesis
        proof (cases "parseAuxiliaryValue L buffer type (offset1 + 4)")
          case (Inl e1)
          with unfolded inside mk ty show ?thesis
            by (simp add: and_then_def Let_def offset1_def [symmetric])
        next
          case (Inr a)
          obtain v newOffset where a: "a = (v, newOffset)" by (cases a)
          from unfolded inside mk ty Inr a
          have rec: "parseAuxiliaryStandard_loop L buffer endOffset (vals @ [v]) newOffset = Inl e"
            by (simp add: and_then_def Let_def offset1_def [symmetric])
          show ?thesis
            by (rule "1.IH" [OF inside offset1_def Inr [unfolded a] refl rec])
        qed
      qed
    qed
  qed
qed

lemma parseAuxiliaryData_error:
  "parseAuxiliaryData L buffer = Inl e \<Longrightarrow> e = RangeError"
  by (auto simp: parseAuxiliaryData_def parseAuxiliaryStandard_def and_then_def
      readBigUInt64LE_def split: if_splits sum.splits
      dest: read_le_error loop_error_is_range)

lemma recvMessage_packet_never_unknown:
  "recvMessage_packet L packet \<noteq> Inl (Error ''Unknown auxiliary type'')"
proof
  assume a: "recvMessage_packet L packet = Inl (Error ''Unknown auxiliary type'')"
  show False
  proof (cases "parsePayloadHeader packet")
    case (Inl e)
    then have "e = Error ''Buffer too small for DTX payload header'' \<or> e = RangeError"
      by (auto simp: parsePayloadHeader_def and_then_def readUInt32LE_def readBigUInt64LE_def
          split: if_splits sum.splits dest: read_le_error)
    with a Inl show False by (auto simp: recvMessage_packet_def and_then_def)
  next
    case (Inr ph)
    with a show False
      by (auto simp: recvMessage_packet_def and_then_def Let_def
          split: if_splits sum.splits dest: parseAuxiliaryData_error)
  qed
qed

lemma recvMessage_packet_delivers:
  assumes ph: "parsePayloadHeader packet = Inr ph" and c: "compression ph = 0"
    and al: "0 < auxiliaryLength ph"
    and aux: "aux = subarray packet 16 (16 + nat (auxiliaryLength ph))"
    and len: "16 \<le> length aux"
    and mg: "readBigUInt64LE 0 aux = Inr MESSAGE_AUX_MAGIC"
    and sz: "readBigUInt64LE 8 aux = Inr totalSize"
    and lp: "parseAuxiliaryStandard_loop L aux (16 + totalSize) [] 16 = Inr vals"
  shows "recvMessage_packet L packet =
     Inr (if totalLength ph - auxiliaryLength ph > 0
          then Some (subarray packet (16 + nat (auxiliaryLength ph))
                  (16 + nat (auxiliaryLength ph) + nat (totalLength ph - auxiliaryLength ph)))
          else None, vals)"
  using ph c al len mg sz lp
  by (simp add: recvMessage_packet_def and_then_def Let_def PAYLOAD_HEADER_SIZE_def
      aux [symmetric] parseAuxiliaryData_def parseAuxiliaryStandard_def)

lemma read_le_past_prefix: "read_le n (length pre + k) (pre @ r) = read_le n k r"
  by (simp add: read_le_def)

lemma read_le_past_field:
  "m \<le> off \<Longrightarrow> read_le n off (le_bytes m v @ r) = read_le n (off - m) r"
  by (auto simp add: read_le_def length_le_bytes)

lemma read_le_field: "read_le n 0 (le_bytes n v @ r) = Inr (v mod 2 ^ (8 * n))"
  by (simp add: read_le_def length_le_bytes le_value_le_bytes)

lemma length_int32_item: "length (int32_item v) = 12"
  by (simp add: int32_item_def length_le_bytes)

lemma loop_over_items:
  assumes "list_all u32 xs" and "u32 ty"
    and "ty \<noteq> AUX_TYPE_OBJECT" "ty \<noteq> AUX_TYPE_INT32" "ty \<noteq> AUX_TYPE_INT64"
    and "int (length pre + 12 * length xs) < endOffset"
  shows "parseAuxiliaryStandard_loop L (pre @ aux_items_then xs ty rest) endOffset vals (length pre)
         = Inr (vals @ map PNum xs)"
  using assms
proof (induction xs arbitrary: pre vals)
  case Nil
  have m: "readUInt32LE (length pre) (pre @ aux_items_then [] ty rest) = Inr EMPTY_DICTIONARY"
    by (simp add: readUInt32LE_def aux_items_then_def read_le_past_prefix [of 4 pre 0, simplified]
        read_le_field EMPTY_DICTIONARY_def)
  have t: "readUInt32LE (length pre + 4) (pre @ aux_items_then [] ty rest) = Inr ty"
    using Nil.prems(2)
    by (simp add: readUInt32LE_def aux_items_then_def read_le_past_prefix read_le_past_field
        read_le_field u32_def)
  have l: "length pre < length (pre @ aux_items_then [] ty rest)"
    by (simp add: aux_items_then_def length_le_bytes)
  show ?case
    using Nil.prems m t l
    by (subst parseAuxiliaryStandard_loop.simps)
      (simp add: and_then_def Let_def parseAuxiliaryValue_def)
next
  case (Cons x xs)
  let ?buf = "pre @ aux_items_then (x # xs) ty rest"
  have cons: "aux_items_then (x # xs) ty rest = int32_item x @ aux_items_then xs ty rest"
    by (simp add: aux_items_then_def)
  have m: "readUInt32LE (length pre) ?buf = Inr EMPTY_DICTIONARY"
    by (simp add: readUInt32LE_def aux_items_then_def int32_item_def
        read_le_past_prefix [of 4 pre 0, simplified] read_le_field EMPTY_DICTIONARY_def)
  have t: "readUInt32LE (length pre + 4) ?buf = Inr AUX_TYPE_INT32"
    by (simp add: readUInt32LE_def aux_items_then_def int32_item_def read_le_past_prefix
        read_le_past_field read_le_field AUX_TYPE_INT32_def)
  have v: "readUInt32LE (length pre + 4 + 4) ?buf = Inr x"
    using Cons.prems(1)
    by (simp add: readUInt32LE_def aux_items_then_def int32_item_def read_le_past_prefix
        read_le_past_field read_le_field u32_def add.assoc)
  have l: "length pre < length ?buf"
    by (simp add: aux_items_then_def length_le_bytes length_int32_item)
  have rec: "parseAuxiliaryStandard_loop L ((pre @ int32_item x) @ aux_items_then xs ty rest)
       endOffset (vals @ [PNum x]) (length (pre @ int32_item x))
     = Inr ((vals @ [PNum x]) @ map PNum xs)"
    using Cons.prems by (intro Cons.IH) (simp_all add: length_int32_item)
  have step: "parseAuxiliaryStandard_loop L ?buf endOffset vals (length pre) =
      parseAuxiliaryStandard_loop L ?buf endOffset (vals @ [PNum x]) (length pre + 12)"
    using Cons.prems m t v l
    by (subst parseAuxiliaryStandard_loop.simps)
      (simp add: and_then_def Let_def parseAuxiliaryValue_def AUX_TYPE_INT32_def add.commute)
  show ?case
    unfolding step using rec by (simp add: cons length_int32_item)
qed

lemma length_aux_items_then:
  "length (aux_items_then xs ty rest) = 12 * length xs + 8 + length rest"
  by (induction xs) (simp_all add: aux_items_then_def length_le_bytes length_int32_item)

lemma length_aux_section:
  "length (aux_section xs ty rest) = 16 + length (aux_items_then xs ty rest)"
  by (simp add: aux_section_def length_le_bytes)

lemma parseAuxiliaryData_aux_section:
  assumes "list_all u32 xs" and "u32 ty"
    and "ty \<noteq> AUX_TYPE_OBJECT" "ty \<noteq> AUX_TYPE_INT32" "ty \<noteq> AUX_TYPE_INT64"
    and "length (aux_section xs ty rest) < 2 ^ 32"
  shows "parseAuxiliaryData L (aux_section xs ty rest) = Inr (map PNum xs)"
proof -
  let ?items = "aux_items_then xs ty rest"
  let ?pre = "le_bytes 8 MESSAGE_AUX_MAGIC @ le_bytes 8 (int (length ?items))"
  have aux: "aux_section xs ty rest = ?pre @ ?items"
    by (simp add: aux_section_def)
  have small: "int (length ?items) < 2 ^ 64"
  proof -
    have "int (length ?items) < 2 ^ 32"
      using assms(6) by (simp add: length_aux_section)
    also have "(2::int) ^ 32 < 2 ^ 64" by simp
    finally show ?thesis .
  qed
  have mg: "readBigUInt64LE 0 (aux_section xs ty rest) = Inr MESSAGE_AUX_MAGIC"
    by (simp add: readBigUInt64LE_def aux_section_def read_le_field MESSAGE_AUX_MAGIC_def)
  have sz: "readBigUInt64LE 8 (aux_section xs ty rest) = Inr (int (length ?items))"
    using small
    by (simp add: readBigUInt64LE_def aux_section_def read_le_past_field read_le_field)
  have "parseAuxiliaryStandard_loop L (?pre @ ?items) (16 + int (length ?items)) [] (length ?pre)
      = Inr ([] @ map PNum xs)"
    using assms(1-5)
    by (intro loop_over_items) (simp_all add: length_le_bytes length_aux_items_then)
  then have lp: "parseAuxiliaryStandard_loop L (aux_section xs ty rest)
      (16 + int (length ?items)) [] 16 = Inr (map PNum xs)"
    by (simp add: aux length_le_bytes)
  show ?thesis
    using mg sz lp
    by (simp add: parseAuxiliaryData_def parseAuxiliaryStandard_def and_then_def
        length_aux_section)
qed

lemma parsePayloadHeader_payload_with_aux:
  assumes "u32 fl" and "length aux < 2 ^ 32" and "length aux + length obj < 2 ^ 64"
  shows "parsePayloadHeader (payload_with_aux fl aux obj) =
         Inr \<lparr>flags = fl, auxiliaryLength = int (length aux),
              totalLength = int (length aux + length obj)\<rparr>"
proof -
  have a: "int (length aux) mod 2 ^ 32 = int (length aux)"
    using assms(2) by simp
  have t: "(int (length aux) + int (length obj)) mod 2 ^ 64 = int (length aux) + int (length obj)"
    using assms(3) by simp
  show ?thesis
    using assms(1) a t
    by (simp add: parsePayloadHeader_def payload_with_aux_def PAYLOAD_HEADER_SIZE_def
        length_le_bytes and_then_def readUInt32LE_def readBigUInt64LE_def read_le_past_field
        read_le_field u32_def)
qed

lemma recvMessage_packet_payload_with_aux:
  assumes "u32 fl" and "length aux < 2 ^ 32" and "length aux + length obj < 2 ^ 64"
    and "compression \<lparr>flags = fl, auxiliaryLength = int (length aux),
              totalLength = int (length aux + length obj)\<rparr> = 0"
    and "aux \<noteq> []"
  shows "recvMessage_packet L (payload_with_aux fl aux obj) =
         and_then (parseAuxiliaryData L aux)
           (\<lambda>vals. Inr (if obj = [] then None else Some obj, vals))"
proof -
  have cut: "subarray (payload_with_aux fl aux obj) 16 (16 + length aux) = aux"
    "subarray (payload_with_aux fl aux obj) (16 + length aux) (16 + length aux + length obj) = obj"
    by (simp_all add: subarray_def payload_with_aux_def length_le_bytes)
  show ?thesis
    using assms(4,5)
    by (simp add: recvMessage_packet_def parsePayloadHeader_payload_with_aux [OF assms(1-3)]
        and_then_def Let_def PAYLOAD_HEADER_SIZE_def cut split: sum.splits)
qed

lemma buildAuxiliaryItem_int32:
  "u32 v \<Longrightarrow>
   buildAuxiliaryItem L \<lparr>aux_type = AUX_TYPE_INT32, aux_value = PNum v\<rparr> = Inr (int32_item v)"
  by (simp add: buildAuxiliaryItem_def int32_item_def writeUInt32LE_def write_le_def and_then_def
      copy_into_def alloc_def length_le_bytes u32_def EMPTY_DICTIONARY_def AUX_TYPE_INT32_def)

text \<open>
  Claim C4, as the code has it. A packet whose payload header has a compression flag makes
  \<open>recvMessage\<close> throw. An auxiliary item of unknown type makes \<open>parseAuxiliaryValue\<close>
  throw, but the loop of \<open>parseAuxiliaryStandard\<close> catches that and returns the values it
  has collected so far; \<open>recvMessage\<close> never throws that error: whatever the loop returns
  it delivers together with the object data of the packet. In particular, for a message
  whose auxiliary section holds 32-bit integers and then an item of unknown type,
  \<open>recvMessage\<close> returns the object data and those integers.
\<close>

theorem recvMessage_protocol_errors:
  "(recvPacketFragments channel s = Some (Inr packet, s1) \<and>
    parsePayloadHeader packet = Inr ph \<and> compression ph \<noteq> 0
      \<longrightarrow> recvMessage L channel s = Some (Inl (Error ''Compressed messages not supported''), s1)) \<and>
   (int offset < endOffset \<and> offset < length buffer \<and>
    readUInt32LE offset buffer = Inr marker \<and>
    readUInt32LE (if marker \<noteq> EMPTY_DICTIONARY then offset else offset + 4) buffer = Inr ty \<and>
    ty \<noteq> AUX_TYPE_OBJECT \<and> ty \<noteq> AUX_TYPE_INT32 \<and> ty \<noteq> AUX_TYPE_INT64
      \<longrightarrow> parseAuxiliaryValue L buffer ty
            ((if marker \<noteq> EMPTY_DICTIONARY then offset else offset + 4) + 4)
            = Inl (Error ''Unknown auxiliary type'') \<and>
          parseAuxiliaryStandard_loop L buffer endOffset vals offset = Inr vals) \<and>
   (recvPacketFragments channel s = Some (Inr packet, s1)
      \<longrightarrow> recvMessage L channel s \<noteq> Some (Inl (Error ''Unknown auxiliary type''), s1)) \<and>
   (recvPacketFragments channel s = Some (Inr packet, s1) \<and>
    parsePayloadHeader packet = Inr ph \<and> compression ph = 0 \<and> 0 < auxiliaryLength ph \<and>
    16 \<le> length (subarray packet 16 (16 + nat (auxiliaryLength ph))) \<and>
    readBigUInt64LE 0 (subarray packet 16 (16 + nat (auxiliaryLength ph)))
      = Inr MESSAGE_AUX_MAGIC \<and>
    readBigUInt64LE 8 (subarray packet 16 (16 + nat (auxiliaryLength ph))) = Inr totalSize \<and>
    parseAuxiliaryStandard_loop L (subarray packet 16 (16 + nat (auxiliaryLength ph)))
      (16 + totalSize) [] 16 = Inr found
      \<longrightarrow> recvMessage L channel s =
            Some (Inr (if totalLength ph - auxiliaryLength ph > 0
                       then Some (subarray packet (16 + nat (auxiliaryLength ph))
                               (16 + nat (auxiliaryLength ph)
                                 + nat (totalLength ph - auxiliaryLength ph)))
                       else None, found), s1)) \<and>
   (recvPacketFragments channel s
      = Some (Inr (payload_with_aux fl (aux_section xs unknown rest) obj), s1) \<and>
    u32 fl \<and>
    compression \<lparr>flags = fl, auxiliaryLength = int (length (aux_section xs unknown rest)),
                 totalLength = int (length (aux_section xs unknown rest) + length obj)\<rparr> = 0 \<and>
    list_all u32 xs \<and> u32 unknown \<and>
    unknown \<noteq> AUX_TYPE_OBJECT \<and> unknown \<noteq> AUX_TYPE_INT32 \<and> unknown \<noteq> AUX_TYPE_INT64 \<and>
    length (aux_section xs unknown rest) < 2 ^ 32 \<and>
    length (aux_section xs unknown rest) + length obj < 2 ^ 64
      \<longrightarrow> recvMessage L channel s =
            Some (Inr (if obj = [] then None else Some obj, map PNum xs), s1))"
proof (intro conjI impI)
  assume "recvPacketFragments channel s = Some (Inr packet, s1) \<and>
    parsePayloadHeader packet = Inr ph \<and> compression ph \<noteq> 0"
  then show "recvMessage L channel s = Some (Inl (Error ''Compressed messages not supported''), s1)"
    using recvMessage_compressed [of channel s packet s1 ph L] by blast
next
  assume a: "int offset < endOffset \<and> offset < length buffer \<and>
    readUInt32LE offset buffer = Inr marker \<and>
    readUInt32LE (if marker \<noteq> EMPTY_DICTIONARY then offset else offset + 4) buffer = Inr ty \<and>
    ty \<noteq> AUX_TYPE_OBJECT \<and> ty \<noteq> AUX_TYPE_INT32 \<and> ty \<noteq> AUX_TYPE_INT64"
  then show "parseAuxiliaryValue L buffer ty
            ((if marker \<noteq> EMPTY_DICTIONARY then offset else offset + 4) + 4)
            = Inl (Error ''Unknown auxiliary type'')"
    using parseAuxiliaryValue_unknown [of ty L buffer] by blast
  from a show "parseAuxiliaryStandard_loop L buffer endOffset vals offset = Inr vals"
    using loop_stops_at_unknown_type [of offset endOffset buffer marker ty L vals] by blast
next
  assume "recvPacketFragments channel s = Some (Inr packet, s1)"
  then show "recvMessage L channel s \<noteq> Some (Inl (Error ''Unknown auxiliary type''), s1)"
    using recvMessage_packet_never_unknown [of L packet] by (simp add: recvMessage_def)
next
  assume a: "recvPacketFragments channel s = Some (Inr packet, s1) \<and>
    parsePayloadHeader packet = Inr ph \<and> compression ph = 0 \<and> 0 < auxiliaryLength ph \<and>
    16 \<le> length (subarray packet 16 (16 + nat (auxiliaryLength ph))) \<and>
    readBigUInt64LE 0 (subarray packet 16 (16 + nat (auxiliaryLength ph)))
      = Inr MESSAGE_AUX_MAGIC \<and>
    readBigUInt64LE 8 (subarray packet 16 (16 + nat (auxiliaryLength ph))) = Inr totalSize \<and>
    parseAuxiliaryStandard_loop L (subarray packet 16 (16 + nat (auxiliaryLength ph)))
      (16 + totalSize) [] 16 = Inr found"
  then have "recvMessage_packet L packet =
      Inr (if totalLength ph - auxiliaryLength ph > 0
           then Some (subarray packet (16 + nat (auxiliaryLength ph))
                   (16 + nat (auxiliaryLength ph) + nat (totalLength ph - auxiliaryLength ph)))
           else None, found)"
    using recvMessage_packet_delivers [of packet ph
        "subarray packet 16 (16 + nat (auxiliaryLength ph))" totalSize L found]
    by blast
  with a show "recvMessage L channel s =
            Some (Inr (if totalLength ph - auxiliaryLength ph > 0
                       then Some (subarray packet (16 + nat (auxiliaryLength ph))
                               (16 + nat (auxiliaryLength ph)
                                 + nat (totalLength ph - auxiliaryLength ph)))
                       else None, found), s1)"
    by (simp add: recvMessage_def)
next
  let ?aux = "aux_section xs unknown rest"
  assume a: "recvPacketFragments channel s
      = Some (Inr (payload_with_aux fl ?aux obj), s1) \<and>
    u32 fl \<and>
    compression \<lparr>flags = fl, auxiliaryLength = int (length ?aux),
                 totalLength = int (length ?aux + length obj)\<rparr> = 0 \<and>
    list_all u32 xs \<and> u32 unknown \<and>
    unknown \<noteq> AUX_TYPE_OBJECT \<and> unknown \<noteq> AUX_TYPE_INT32 \<and> unknown \<noteq> AUX_TYPE_INT64 \<and>
    length ?aux < 2 ^ 32 \<and> length ?aux + length obj < 2 ^ 64"
  have ne: "?aux \<noteq> []"
    using length_aux_section [of xs unknown rest] by auto
  from a have pd: "parseAuxiliaryData L ?aux = Inr (map PNum xs)"
    by (intro parseAuxiliaryData_aux_section) simp_all
  from a ne have "recvMessage_packet L (payload_with_aux fl ?aux obj) =
      and_then (parseAuxiliaryData L ?aux)
        (\<lambda>vals. Inr (if obj = [] then None else Some obj, vals))"
    by (intro recvMessage_packet_payload_with_aux) simp_all
  with a pd show "recvMessage L channel s =
      Some (Inr (if obj = [] then None else Some obj, map PNum xs), s1)"
    by (simp add: recvMessage_def and_then_def)
qed

theorem recvMessage_protocol_errors_witness:
  "map_option fst (recvMessage no_plists 0 (incoming_service (dtx_frame compressed_packet)))
     = Some (Inl (Error ''Compressed messages not supported'')) \<and>
   parseAuxiliaryValue no_plists (drop 16 unknown_aux_packet) 99 36
     = Inl (Error ''Unknown auxiliary type'') \<and>
   parseAuxiliaryStandard_loop no_plists (drop 16 unknown_aux_packet) 40 [PNum 7] 28
     = Inr [PNum 7] \<and>
   map_option fst (recvMessage no_plists 0 (incoming_service (dtx_frame unknown_aux_message)))
     \<noteq> Some (Inl (Error ''Unknown auxiliary type'')) \<and>
   map_option fst (recvMessage no_plists 0 (incoming_service (dtx_frame unknown_aux_message)))
     = Some (Inr (Some [1, 2, 3], [PNum 7]))"
proof -
  let ?s = "incoming_service (dtx_frame compressed_packet)"
  let ?t = "incoming_service (dtx_frame unknown_aux_message)"
  let ?ph = "\<lparr>flags = 0x1002, auxiliaryLength = 0, totalLength = 0\<rparr>"
  let ?qh = "\<lparr>flags = 2, auxiliaryLength = 40, totalLength = 43\<rparr>"
  have "case recvPacketFragments 0 ?s of
          Some (Inr p, s1) \<Rightarrow> p = compressed_packet | _ \<Rightarrow> False"
    by code_simp
  then obtain s1 where rp: "recvPacketFragments 0 ?s = Some (Inr compressed_packet, s1)"
    by (auto split: option.splits sum.splits prod.splits)
  have "case recvPacketFragments 0 ?t of
          Some (Inr p, t1) \<Rightarrow> p = unknown_aux_message | _ \<Rightarrow> False"
    by code_simp
  then obtain t1 where rq: "recvPacketFragments 0 ?t = Some (Inr unknown_aux_message, t1)"
    by (auto split: option.splits sum.splits prod.splits)
  have ph: "parsePayloadHeader compressed_packet = Inr ?ph"
    by code_simp
  have c: "compression ?ph \<noteq> 0"
    by code_simp
  have b: "int 28 < 40" "28 < length (drop 16 unknown_aux_packet)"
    "readUInt32LE 28 (drop 16 unknown_aux_packet) = Inr 10"
    "readUInt32LE (if (10::int) \<noteq> EMPTY_DICTIONARY then 28 else 28 + 4)
       (drop 16 unknown_aux_packet) = Inr 99"
    "(99::int) \<noteq> AUX_TYPE_OBJECT" "(99::int) \<noteq> AUX_TYPE_INT32" "(99::int) \<noteq> AUX_TYPE_INT64"
    "(if (10::int) \<noteq> EMPTY_DICTIONARY then 28 else 28 + 4) + 4 = (36::nat)"
    by code_simp+
  have q: "parsePayloadHeader unknown_aux_message = Inr ?qh"
    "compression ?qh = 0" "0 < auxiliaryLength ?qh"
    "16 \<le> length (subarray unknown_aux_message 16 (16 + nat (auxiliaryLength ?qh)))"
    "readBigUInt64LE 0 (subarray unknown_aux_message 16 (16 + nat (auxiliaryLength ?qh)))
       = Inr MESSAGE_AUX_MAGIC"
    "readBigUInt64LE 8 (subarray unknown_aux_message 16 (16 + nat (auxiliaryLength ?qh)))
       = Inr 24"
    "parseAuxiliaryStandard_loop no_plists
       (subarray unknown_aux_message 16 (16 + nat (auxiliaryLength ?qh))) (16 + 24) [] 16
       = Inr [PNum 7]"
    "(if totalLength ?qh - auxiliaryLength ?qh > 0
      then Some (subarray unknown_aux_message (16 + nat (auxiliaryLength ?qh))
              (16 + nat (auxiliaryLength ?qh) + nat (totalLength ?qh - auxiliaryLength ?qh)))
      else None) = Some [1, 2, 3]"
    by code_simp+
  have f0: "u32 2" "list_all u32 [7]" "u32 99"
    by code_simp+
  have f: "compression \<lparr>flags = 2,
       auxiliaryLength = int (length (aux_section [7] 99 (le_bytes 4 0))),
       totalLength = int (length (aux_section [7] 99 (le_bytes 4 0)) + length [1, 2, 3 :: byte])\<rparr>
       = 0"
    "length (aux_section [7] 99 (le_bytes 4 0)) < 2 ^ 32"
    "length (aux_section [7] 99 (le_bytes 4 0)) + length [1, 2, 3 :: byte] < 2 ^ 64"
    by (simp_all add: compression_def length_aux_section length_aux_items_then length_le_bytes)
  note thm1 = recvMessage_protocol_errors [of 0 ?s compressed_packet s1 ?ph no_plists
      28 40 "drop 16 unknown_aux_packet" 10 99 "[PNum 7]"]
  note thm2 = recvMessage_protocol_errors [where channel = 0 and s = ?t
      and packet = unknown_aux_message and ?s1.0 = t1 and ph = ?qh and L = no_plists
      and totalSize = 24 and found = "[PNum 7]"
      and fl = 2 and xs = "[7]" and unknown = 99 and rest = "le_bytes 4 0" and obj = "[1, 2, 3]"]
  have 1: "recvMessage no_plists 0 ?s
      = Some (Inl (Error ''Compressed messages not supported''), s1)"
    using thm1 rp ph c by blast
  have 2: "parseAuxiliaryValue no_plists (drop 16 unknown_aux_packet) 99 36
     = Inl (Error ''Unknown auxiliary type'')"
    "parseAuxiliaryStandard_loop no_plists (drop 16 unknown_aux_packet) 40 [PNum 7] 28
     = Inr [PNum 7]"
    using thm1 b by simp_all
  have 3: "recvMessage no_plists 0 ?t \<noteq> Some (Inl (Error ''Unknown auxiliary type''), t1)"
    using thm2 rq by blast
  have 4: "recvMessage no_plists 0 ?t = Some (Inr (Some [1, 2, 3], [PNum 7]), t1)"
    using thm2 rq q by simp
  have 5: "recvMessage no_plists 0 ?t = Some (Inr (Some [1, 2, 3], [PNum 7]), t1)"
    using thm2 rq [unfolded unknown_aux_message_def] f0 f b(5-7)
    by (simp add: unknown_aux_message_def)
  from 1 2 3 4 5 show ?thesis by simp
qed

text \<open>
  A message whose auxiliary section holds the integer 7 and then an item of type 99:
  \<open>recvMessage\<close> returns, with the auxiliary values \<open>[7]\<close>.
\<close>

theorem recvMessage_returns_partial_aux:
  "map_option fst (recvMessage no_plists 0 (incoming_service (dtx_frame unknown_aux_packet)))
     = Some (Inr (None, [PNum 7]))"
  by code_simp

subsection \<open>Channels\<close>

lemma sendMessage_keeps:
  "sendMessage L channel selector args er s = (r, s') \<Longrightarrow>
   lastChannelCode s' = lastChannelCode s \<and> isHandshakeComplete s' = isHandshakeComplete s \<and>
   channelCache s' = channelCache s"
  by (auto simp: sendMessage_def Let_def split: option.splits sum.splits)

lemma sendMessage_written:
  "sendMessage L channel selector args er s = (Inr u, s') \<Longrightarrow>
   \<exists>sock message. socket s = Some sock \<and>
      socket s' = Some (sock\<lparr>sock_written := sock_written sock @ [message]\<rparr>) \<and>
      encodeMessage L (curMessageId s + 1) channel selector args er = Inr message"
  by (auto simp: sendMessage_def Let_def split: option.splits sum.splits)

lemma recvPlist_keeps:
  "recvPlist L channel s = Some (r, s') \<Longrightarrow> keeps_channels s s'"
  by (auto simp: recvPlist_def recvMessage_def split: option.splits sum.splits prod.splits
      dest: recvPacketFragments_keeps)

lemma makeChannel_hit:
  "isHandshakeComplete s \<Longrightarrow> channelCache s ident = Some ch \<Longrightarrow>
   makeChannel L ident s = Some (Inr ch, s)"
  by (simp add: makeChannel_def)

lemma makeChannel_miss:
  assumes hs: "isHandshakeComplete s" and miss: "channelCache s ident = None"
    and mk: "makeChannel L ident s = Some (r, s')"
  shows "lastChannelCode s' = lastChannelCode s + 1 \<and> isHandshakeComplete s'"
    and "r = Inr ch \<Longrightarrow>
      channel_code ch = lastChannelCode s + 1 \<and> channelCache s' ident = Some ch \<and>
      (\<exists>sock sock' message. socket s = Some sock \<and> socket s' = Some sock' \<and>
         sock_written sock' = sock_written sock @ [message] \<and>
         encodeMessage L (curMessageId s + 1) 0 (Some ''_requestChannelWithCode:identifier:'')
           (Some (appendObj (PStr ident) (appendInt (lastChannelCode s + 1) []))) True
           = Inr message)"
proof -
  define s1 where "s1 = s\<lparr>lastChannelCode := lastChannelCode s + 1\<rparr>"
  define args where "args = appendObj (PStr ident) (appendInt (lastChannelCode s + 1) [])"
  obtain r2 s2 where sm: "sendMessage L 0 (Some ''_requestChannelWithCode:identifier:'')
      (Some args) True s1 = (r2, s2)"
    by (cases "sendMessage L 0 (Some ''_requestChannelWithCode:identifier:'') (Some args) True s1")
  note k2 = sendMessage_keeps [OF sm]
  have unfolded: "Some (r, s') =
     (case r2 of
        Inl e \<Rightarrow> Some (Inl e, s2)
      | Inr u \<Rightarrow>
          (case recvPlist L BROADCAST_CHANNEL s2 of
             None \<Rightarrow> None
           | Some (Inl e, s3) \<Rightarrow> Some (Inl e, s3)
           | Some (Inr (ret, aux), s3) \<Rightarrow>
               (case checkForNSError ret ''Failed to create channel'' of
                  Inl e \<Rightarrow> Some (Inl e, s3)
                | Inr u \<Rightarrow>
                    Some (Inr \<lparr>channel_code = lastChannelCode s + 1\<rparr>,
                          s3\<lparr>channelCache := (channelCache s3)(ident \<mapsto>
                                 \<lparr>channel_code = lastChannelCode s + 1\<rparr>),
                             channelMessages := (channelMessages s3)(lastChannelCode s + 1 \<mapsto>
                                 new_ChannelFragmenter)\<rparr>))))"
    using mk hs miss sm [unfolded s1_def args_def]
    by (simp add: makeChannel_def Let_def cong: sum.case_cong option.case_cong)
  show "lastChannelCode s' = lastChannelCode s + 1 \<and> isHandshakeComplete s'"
  proof (cases r2)
    case (Inl e)
    with unfolded k2 hs show ?thesis by (simp add: s1_def)
  next
    case (Inr u)
    show ?thesis
    proof (cases "recvPlist L BROADCAST_CHANNEL s2")
      case None
      with unfolded Inr show ?thesis by simp
    next
      case (Some a)
      obtain r3 s3 where a: "a = (r3, s3)" by (cases a)
      from Some a have "keeps_channels s2 s3" by (auto dest: recvPlist_keeps)
      with unfolded Inr Some a k2 hs show ?thesis
        by (auto simp: keeps_channels_def s1_def split: sum.splits prod.splits)
    qed
  qed
  assume ok: "r = Inr ch"
  show "channel_code ch = lastChannelCode s + 1 \<and> channelCache s' ident = Some ch \<and>
      (\<exists>sock sock' message. socket s = Some sock \<and> socket s' = Some sock' \<and>
         sock_written sock' = sock_written sock @ [message] \<and>
         encodeMessage L (curMessageId s + 1) 0 (Some ''_requestChannelWithCode:identifier:'')
           (Some (appendObj (PStr ident) (appendInt (lastChannelCode s + 1) []))) True
           = Inr message)"
  proof (cases r2)
    case (Inl e)
    with unfolded ok show ?thesis by simp
  next
    case (Inr u)
    from sendMessage_written [OF sm [unfolded Inr]]
    obtain sock message where w: "socket s1 = Some sock"
      "socket s2 = Some (sock\<lparr>sock_written := sock_written sock @ [message]\<rparr>)"
      "encodeMessage L (curMessageId s1 + 1) 0 (Some ''_requestChannelWithCode:identifier:'')
         (Some args) True = Inr message"
      by blast
    show ?thesis
    proof (cases "recvPlist L BROADCAST_CHANNEL s2")
      case None
      with unfolded Inr show ?thesis by simp
    next
      case (Some a)
      obtain r3 s3 where a: "a = (r3, s3)" by (cases a)
      from Some a have k3: "keeps_channels s2 s3" by (auto dest: recvPlist_keeps)
      from unfolded Inr Some a ok
      have "ch = \<lparr>channel_code = lastChannelCode s + 1\<rparr>" and
        s': "s' = s3\<lparr>channelCache := (channelCache s3)(ident \<mapsto> \<lparr>channel_code = lastChannelCode s + 1\<rparr>),
                    channelMessages := (channelMessages s3)(lastChannelCode s + 1 \<mapsto>
                                 new_ChannelFragmenter)\<rparr>"
        by (auto split: sum.splits prod.splits)
      moreover from k3 w(2) obtain sock3 where "socket s3 = Some sock3"
        "sock_written sock3 = sock_written sock @ [message]"
        by (cases "socket s3") (auto simp: keeps_channels_def)
      ultimately show ?thesis
        using w(1,3) by (auto simp: s1_def args_def)
    qed
  qed
qed

lemma makeChannel_twice:
  assumes "makeChannel L ident s = Some (Inr ch, s')"
  shows "makeChannel L ident s' = Some (Inr ch, s')"
proof -
  from assms have hs: "isHandshakeComplete s"
    by (auto simp: makeChannel_def split: if_splits)
  show ?thesis
  proof (cases "channelCache s ident")
    case (Some c)
    with assms hs have "c = ch" "s' = s" by (simp_all add: makeChannel_def)
    with Some hs show ?thesis by (simp add: makeChannel_hit)
  next
    case None
    from makeChannel_miss(1) [OF hs None assms] makeChannel_miss(2) [OF hs None assms refl]
    show ?thesis by (simp add: makeChannel_hit)
  qed
qed

text \<open>
  Claim C9. After a \<open>makeChannel\<close> that returned a channel, a second call with the same
  identifier returns the same channel and leaves the whole service state as it is: no
  message is written and no code is allocated. On a cache miss the channel counter is
  advanced by one whatever happens afterwards; when the call returns a channel, its code
  is that next code, and exactly one message was written, the channel request carrying it.
\<close>

theorem makeChannel_idempotent:
  "(makeChannel L ident s = Some (Inr ch, s') \<longrightarrow> makeChannel L ident s' = Some (Inr ch, s')) \<and>
   (isHandshakeComplete s \<and> channelCache s ident = None \<and> makeChannel L ident s = Some (r, s')
      \<longrightarrow> lastChannelCode s' = lastChannelCode s + 1) \<and>
   (isHandshakeComplete s \<and> channelCache s ident = None \<and>
    makeChannel L ident s = Some (Inr ch, s')
      \<longrightarrow> channel_code ch = lastChannelCode s + 1 \<and>
          (\<exists>sock sock' message. socket s = Some sock \<and> socket s' = Some sock' \<and>
             sock_written sock' = sock_written sock @ [message] \<and>
             encodeMessage L (curMessageId s + 1) 0 (Some ''_requestChannelWithCode:identifier:'')
               (Some (appendObj (PStr ident) (appendInt (lastChannelCode s + 1) []))) True
               = Inr message))"
  using makeChannel_twice [of L ident s ch s'] makeChannel_miss(1) [of s ident L r s']
    makeChannel_miss(2) [of s ident L "Inr ch" s' ch]
  by blast

theorem makeChannel_idempotent_witness:
  "\<exists>ch s'. makeChannel stub_codec ''svc'' (incoming_service (dtx_frame empty_reply))
              = Some (Inr ch, s') \<and>
           makeChannel stub_codec ''svc'' s' = Some (Inr ch, s') \<and>
           channel_code ch = 1 \<and> lastChannelCode s' = 1"
proof -
  let ?s = "incoming_service (dtx_frame empty_reply)"
  have "case makeChannel stub_codec ''svc'' ?s of Some (Inr ch, s') \<Rightarrow> True | _ \<Rightarrow> False"
    by code_simp
  then obtain ch s' where mk: "makeChannel stub_codec ''svc'' ?s = Some (Inr ch, s')"
    by (auto split: option.splits sum.splits prod.splits)
  have pre: "isHandshakeComplete ?s" "channelCache ?s ''svc'' = None" "lastChannelCode ?s = 0"
    by (simp_all add: incoming_service_def)
  from makeChannel_idempotent [of stub_codec "''svc''" ?s ch s' "Inr ch"] mk pre
  have "makeChannel stub_codec ''svc'' s' = Some (Inr ch, s')" "channel_code ch = 1"
    "lastChannelCode s' = 1"
    by simp_all
  with mk show ?thesis by blast
qed

subsection \<open>File-conduit service\<close>

lemma exists_iff_stat:
  "exists dev p d =
     (Inr (case fst (stat dev p d) of Inr info \<Rightarrow> True | Inl e \<Rightarrow> False), snd (stat dev p d))"
  by (simp add: exists_def split: prod.splits sum.splits)

lemma stat_transport_failure:
  "dev GET_FILE_INFO p d = (Inl e, d1) \<Longrightarrow> stat dev p d = (Inl e, d1)"
  by (simp add: stat_def doOperation_def)

lemma stat_status_failure:
  "dev GET_FILE_INFO p d = (Inr (status, data), d1) \<Longrightarrow> status \<noteq> SUCCESS \<Longrightarrow>
   \<exists>e. stat dev p d = (Inl e, d1)"
  by (simp add: stat_def doOperation_def)

lemma stat_undecodable:
  "dev GET_FILE_INFO p d = (Inr (SUCCESS, FileInfo None), d1) \<Longrightarrow>
   \<exists>e. stat dev p d = (Inl e, d1)"
  by (simp add: stat_def doOperation_def)

text \<open>
  Claim C10. \<open>exists\<close> returns \<open>true\<close> exactly when \<open>stat\<close> succeeds and \<open>false\<close> whenever
  \<open>stat\<close> throws, whatever the reason: a failure of the transport, a status other than
  success (object-not-found or any other), a response that cannot be decoded. It never
  throws itself.
\<close>

theorem exists_never_raises:
  "fst (exists dev p d) = Inr (case fst (stat dev p d) of Inr info \<Rightarrow> True | Inl e \<Rightarrow> False) \<and>
   (dev GET_FILE_INFO p d = (Inl e, d1) \<longrightarrow> exists dev p d = (Inr False, d1)) \<and>
   (dev GET_FILE_INFO p d = (Inr (status, data), d1) \<and> status \<noteq> SUCCESS \<longrightarrow>
      exists dev p d = (Inr False, d1)) \<and>
   (dev GET_FILE_INFO p d = (Inr (SUCCESS, FileInfo None), d1) \<longrightarrow>
      exists dev p d = (Inr False, d1)) \<and>
   (dev GET_FILE_INFO p d = (Inr (SUCCESS, FileInfo (Some info)), d1) \<longrightarrow>
      exists dev p d = (Inr True, d1))"
  by (auto simp add: exists_def stat_def doOperation_def split: prod.splits sum.splits)

theorem exists_never_raises_witness:
  "exists scripted_device ''/a'' (Inl (Error ''Socket closed'')) =
     (Inr False, Inl (Error ''Socket closed'')) \<and>
   exists scripted_device ''/a'' (Inr (OTHER_STATUS 10, NoData)) =
     (Inr False, Inr (OTHER_STATUS 10, NoData)) \<and>
   exists scripted_device ''/a'' (Inr (SUCCESS, FileInfo None)) =
     (Inr False, Inr (SUCCESS, FileInfo None)) \<and>
   exists scripted_device ''/a'' (Inr (SUCCESS, FileInfo (Some (file_info S_IFREG)))) =
     (Inr True, Inr (SUCCESS, FileInfo (Some (file_info S_IFREG))))"
  using
    exists_never_raises [of scripted_device "''/a''" "Inl (Error ''Socket closed'')"
      "Error ''Socket closed''" "Inl (Error ''Socket closed'')"]
    exists_never_raises [of scripted_device "''/a''" "Inr (OTHER_STATUS 10, NoData)"
      _ "Inr (OTHER_STATUS 10, NoData)" "OTHER_STATUS 10" NoData]
    exists_never_raises [of scripted_device "''/a''" "Inr (SUCCESS, FileInfo None)"
      _ "Inr (SUCCESS, FileInfo None)"]
    exists_never_raises [of scripted_device "''/a''"
      "Inr (SUCCESS, FileInfo (Some (file_info S_IFREG)))" _
      "Inr (SUCCESS, FileInfo (Some (file_info S_IFREG)))" _ _ "file_info S_IFREG"]
  by (simp add: scripted_device_def)

lemma fs_stat:
  "stat remote_fs_device p fs =
     (case nodes fs p of
        None \<Rightarrow> (Inl (Error ''AFC error: OBJECT_NOT_FOUND for operation''), fs)
      | Some FileNode \<Rightarrow> (Inr (file_info S_IFREG), fs)
      | Some (DirNode names) \<Rightarrow> (Inr (file_info S_IFDIR), fs))"
  by (simp add: stat_def doOperation_def remote_fs_device_def split: option.splits fs_node.splits)

lemma fs_exists: "exists remote_fs_device p fs = (Inr (nodes fs p \<noteq> None), fs)"
  by (simp add: exists_def fs_stat split: option.splits fs_node.splits)

lemma fs_isdir:
  "nodes fs p = Some n \<Longrightarrow>
   isdir remote_fs_device p fs = (Inr (case n of DirNode names \<Rightarrow> True | FileNode \<Rightarrow> False), fs)"
  by (simp add: isdir_def fs_stat file_info_def split: fs_node.splits)

lemma fs_listdir:
  "nodes fs p = Some (DirNode names) \<Longrightarrow>
   listdir remote_fs_device p fs =
     (Inr (filter (\<lambda>x. x \<notin> set NON_LISTABLE_ENTRIES) (present_children fs p names)), fs)"
  by (simp add: listdir_def doOperation_def remote_fs_device_def NON_LISTABLE_ENTRIES_def)

lemma fs_rmSingle_file:
  "nodes fs p = Some FileNode \<Longrightarrow>
   rmSingle remote_fs_device p force fs =
     (Inr True, fs\<lparr>nodes := (nodes fs)(p := None), removed := removed fs @ [p]\<rparr>)"
  by (simp add: rmSingle_def doOperation_def remote_fs_device_def)

lemma fs_rmSingle_empty_dir:
  "nodes fs p = Some (DirNode names) \<Longrightarrow> present_children fs p names = [] \<Longrightarrow>
   rmSingle remote_fs_device p force fs =
     (Inr True, fs\<lparr>nodes := (nodes fs)(p := None), removed := removed fs @ [p]\<rparr>)"
  by (simp add: rmSingle_def doOperation_def remote_fs_device_def)

lemma rm_missing:
  "nodes fs p = None \<Longrightarrow>
   rm remote_fs_device (Suc fuel) p force fs = Some (Inr (if force then [] else [p]), fs)"
  by (simp add: fs_exists)

lemma rm_tree:
  assumes f: "f \<notin> set NON_LISTABLE_ENTRIES" and s: "s \<notin> set NON_LISTABLE_ENTRIES"
    and dist: "distinct [dir, posix_join dir f, posix_join dir s]"
    and fs: "nodes fs = [dir \<mapsto> DirNode [f, s], posix_join dir f \<mapsto> FileNode,
                        posix_join dir s \<mapsto> DirNode []]"
  shows "rm remote_fs_device (Suc (Suc fuel)) dir force fs =
     Some (Inr [], \<lparr>nodes = Map.empty,
                    removed = removed fs @ [posix_join dir f, posix_join dir s, dir]\<rparr>)"
proof -
  define cf where "cf = posix_join dir f"
  define cs where "cs = posix_join dir s"
  from dist have d: "dir \<noteq> cf" "dir \<noteq> cs" "cf \<noteq> cs" by (auto simp: cf_def cs_def)
  have n: "nodes fs dir = Some (DirNode [f, s])" "nodes fs cf = Some FileNode"
    "nodes fs cs = Some (DirNode [])"
    using d by (simp_all add: fs cf_def [symmetric] cs_def [symmetric])
  have ls: "listdir remote_fs_device dir fs = (Inr [f, s], fs)"
    using f s n by (simp add: fs_listdir [OF n(1)] present_children_def cf_def [symmetric] cs_def [symmetric])
  define fs1 where "fs1 = fs\<lparr>nodes := (nodes fs)(cf := None), removed := removed fs @ [cf]\<rparr>"
  have n1: "nodes fs1 dir = Some (DirNode [f, s])" "nodes fs1 cf = None" "nodes fs1 cs = Some (DirNode [])"
    using n d by (simp_all add: fs1_def)
  define fs2 where "fs2 = fs1\<lparr>nodes := (nodes fs1)(cs := None), removed := removed fs1 @ [cs]\<rparr>"
  have n2: "nodes fs2 dir = Some (DirNode [f, s])" "nodes fs2 cf = None" "nodes fs2 cs = None"
    using n1 d by (simp_all add: fs2_def)
  have sub: "rm remote_fs_device (Suc fuel) cs True fs1 = Some (Inr [], fs2)"
    using n1 by (simp add: fs_exists fs_isdir [OF n1(3)] fs_listdir [OF n1(3)]
        fs_rmSingle_empty_dir [OF n1(3)] present_children_def fs2_def)
  have loop: "rm_entries remote_fs_device (Suc fuel) dir [f, s] [] fs = Some (Inr [], fs2)"
    using n n1 sub
    by (simp add: cf_def [symmetric] cs_def [symmetric] fs_isdir [OF n(2)] fs_isdir [OF n1(3)]
        fs_rmSingle_file [OF n(2)] fs1_def [symmetric])
  have top: "rmSingle remote_fs_device dir force fs2 =
      (Inr True, fs2\<lparr>nodes := (nodes fs2)(dir := None), removed := removed fs2 @ [dir]\<rparr>)"
    using n2 by (simp add: fs_rmSingle_empty_dir [OF n2(1)] present_children_def
        cf_def [symmetric] cs_def [symmetric])
  have fin: "fs2\<lparr>nodes := (nodes fs2)(dir := None), removed := removed fs2 @ [dir]\<rparr>
      = \<lparr>nodes = Map.empty, removed = removed fs @ [cf, cs, dir]\<rparr>"
    using d by (auto simp add: fs2_def fs1_def fs cf_def [symmetric] cs_def [symmetric] fun_eq_iff)
  show ?thesis
    using n ls loop top fin
    by (simp add: fs_exists fs_isdir [OF n(1)] cf_def [symmetric] cs_def [symmetric])
qed

lemma rm_absent:
  "fst (exists dev p d) = Inr False \<Longrightarrow>
   rm dev (Suc fuel) p force d = Some (Inr (if force then [] else [p]), snd (exists dev p d))"
  by (cases "exists dev p d") (auto split: sum.splits bool.splits)

text \<open>
  Claim C8. On a directory that holds one file and one empty subdirectory, \<open>rm\<close> removes
  the two children and then the directory and returns an empty list of failed paths: the
  device has logged the three removals in that order and holds nothing afterwards. On a
  path for which \<open>exists\<close> says no, as it does for a path the device does not have, \<open>rm\<close>
  with \<open>force\<close> returns an empty list and without \<open>force\<close> returns that path, and does
  not throw.
\<close>

theorem rm_directory_and_missing_path:
  "(f \<notin> set NON_LISTABLE_ENTRIES \<and> s \<notin> set NON_LISTABLE_ENTRIES \<and>
    distinct [dir, posix_join dir f, posix_join dir s] \<and>
    nodes fs = [dir \<mapsto> DirNode [f, s], posix_join dir f \<mapsto> FileNode,
                posix_join dir s \<mapsto> DirNode []]
      \<longrightarrow> rm remote_fs_device (Suc (Suc fuel)) dir force fs =
            Some (Inr [], \<lparr>nodes = Map.empty,
                           removed = removed fs @ [posix_join dir f, posix_join dir s, dir]\<rparr>)) \<and>
   (fst (exists dev p d) = Inr False
      \<longrightarrow> rm dev (Suc fuel) p True d = Some (Inr [], snd (exists dev p d)) \<and>
          rm dev (Suc fuel) p False d = Some (Inr [p], snd (exists dev p d))) \<and>
   (nodes fs p = None \<longrightarrow> exists remote_fs_device p fs = (Inr False, fs))"
  using rm_tree [of f s dir fs fuel force] rm_absent [of dev p d fuel True]
    rm_absent [of dev p d fuel False] fs_exists [of p fs]
  by simp

theorem rm_directory_and_missing_path_witness:
  "rm remote_fs_device 2 ''/tmp/x'' False tree_example =
     Some (Inr [], \<lparr>nodes = Map.empty,
                    removed = [''/tmp/x/a.txt'', ''/tmp/x/sub'', ''/tmp/x'']\<rparr>) \<and>
   rm remote_fs_device 1 ''/tmp/y'' True tree_example = Some (Inr [], tree_example) \<and>
   rm remote_fs_device 1 ''/tmp/y'' False tree_example = Some (Inr [''/tmp/y''], tree_example)"
proof -
  have j: "posix_join ''/tmp/x'' ''a.txt'' = ''/tmp/x/a.txt''"
    "posix_join ''/tmp/x'' ''sub'' = ''/tmp/x/sub''"
    by code_simp+
  have n: "''a.txt'' \<notin> set NON_LISTABLE_ENTRIES" "''sub'' \<notin> set NON_LISTABLE_ENTRIES"
    by (simp_all add: NON_LISTABLE_ENTRIES_def)
  have e: "nodes tree_example ''/tmp/y'' = None" "removed tree_example = []"
    by (simp_all add: tree_example_def)
  have t: "nodes tree_example = [''/tmp/x'' \<mapsto> DirNode [''a.txt'', ''sub''],
               ''/tmp/x/a.txt'' \<mapsto> FileNode, ''/tmp/x/sub'' \<mapsto> DirNode []]"
    by (simp add: tree_example_def)
  from rm_directory_and_missing_path [where f = "''a.txt''" and s = "''sub''"
      and dir = "''/tmp/x''" and fs = tree_example and fuel = 0 and force = False
      and dev = remote_fs_device and p = "''/tmp/y''" and d = tree_example]
  show ?thesis
    using n e t by (simp add: j numeral_2_eq_2)
qed

end
